theory Spec2Isabelle
  imports Main "HOL-Library.Word" "HOL-Library.Multiset"
begin

unbundle bit_operations_syntax

section \<open>Machine types and text formatting\<close>

type_synonym u8 = "8 word"
type_synonym u32 = "32 word"
type_synonym u64 = "64 word"

text \<open>
  C strings are modelled as \<open>string\<close>; a \<open>char *\<close> that may be \<open>NULL\<close> is a
  \<open>string option\<close>.  The C \<open>int\<close> indices and counters are \<open>int\<close> (signed overflow is
  undefined behaviour in C, so the model covers the executions that stay below
  \<open>INT_MAX\<close>); the unsigned 32 and 64 bit quantities are words.
\<close>

definition hex_digit :: "nat \<Rightarrow> char" where
  "hex_digit n = ''0123456789ABCDEF'' ! (n mod 16)"

text \<open>\<open>printf\<close> with \<open>%0wX\<close> on a value below \<open>16 ^ w\<close>: exactly \<open>w\<close> upper-case digits.\<close>

fun hex_fixed :: "nat \<Rightarrow> nat \<Rightarrow> string" where
  "hex_fixed 0 n = []"
| "hex_fixed (Suc w) n = hex_fixed w (n div 16) @ [hex_digit n]"

definition dec_digit :: "nat \<Rightarrow> char" where
  "dec_digit n = ''0123456789'' ! (n mod 10)"

text \<open>\<open>printf\<close> with \<open>%zu\<close>, \<open>%u\<close> or \<open>%d\<close> on a natural number.\<close>

fun dec_string :: "nat \<Rightarrow> string" where
  "dec_string n = (if n < 10 then [dec_digit n] else dec_string (n div 10) @ [dec_digit n])"

declare dec_string.simps [simp del]

text \<open>\<open>snprintf (buf, size, ...)\<close> keeps the first \<open>size - 1\<close> characters of the text.\<close>

definition snprintf :: "nat \<Rightarrow> string \<Rightarrow> string" where
  "snprintf n txt = take (n - 1) txt"


section \<open>Guest memory\<close>

text \<open>
  Modelled from the spec: \<open>qemu_get_cpu\<close> and \<open>cpu_memory_rw_debug\<close> belong to the
  emulator core and are not part of the patch engine's sources.  The Memory Access
  collaborator is \<open>read (address: u32, len) -> Result<Bytes, Err>\<close> and
  \<open>write (address: u32, bytes) -> Result<(), Err>\<close>, with no assumption of atomicity
  across multiple calls.  The guest is a partial map from the 32 bit virtual addresses to
  bytes (the mapped pages), the presence of CPU 0, the list of debug accesses that were
  requested, oldest first, and what the guest itself does to its memory before each of
  the accesses to come (\<open>guest_runs\<close>, one function for each access; when the list is
  used up the guest stands still).  An access of \<open>n\<close> bytes at \<open>a\<close> concerns the
  addresses \<open>a, a + 1, ..., a + n - 1\<close>; it succeeds when none of them lies above
  \<open>0xFFFFFFFF\<close> and all of them are mapped, and a failing write changes no byte.
\<close>

datatype access = Read_access u32 nat | Write_access u32 "u8 list"

record guest =
  cpu_present :: bool
  cells :: "u32 \<Rightarrow> u8 option"
  accesses :: "access list"
  guest_runs :: "((u32 \<Rightarrow> u8 option) \<Rightarrow> (u32 \<Rightarrow> u8 option)) list"

definition addr_range :: "u32 \<Rightarrow> nat \<Rightarrow> u32 list" where
  "addr_range a n = map (\<lambda>i. a + of_nat i) [0..<n]"

fun access_footprint :: "access \<Rightarrow> u32 list" where
  "access_footprint (Read_access a n) = addr_range a n"
| "access_footprint (Write_access a bs) = addr_range a (length bs)"

definition mapped :: "guest \<Rightarrow> u32 \<Rightarrow> nat \<Rightarrow> bool" where
  "mapped g a n = (unat a + n \<le> 2 ^ 32 \<and> list_all (\<lambda>x. cells g x \<noteq> None) (addr_range a n))"

definition peek :: "guest \<Rightarrow> u32 \<Rightarrow> nat \<Rightarrow> u8 list" where
  "peek g a n = map (\<lambda>x. the (cells g x)) (addr_range a n)"

fun poke :: "(u32 \<Rightarrow> u8 option) \<Rightarrow> u32 \<Rightarrow> u8 list \<Rightarrow> (u32 \<Rightarrow> u8 option)" where
  "poke m a [] = m"
| "poke m a (b # bs) = poke (m(a := Some b)) (a + 1) bs"

text \<open>The guest runs until the next access.\<close>

definition run_guest :: "guest \<Rightarrow> guest" where
  "run_guest g =
     (case guest_runs g of
        [] \<Rightarrow> g
      | f # fs \<Rightarrow> g\<lparr>cells := f (cells g), guest_runs := fs\<rparr>)"

text \<open>\<open>cpu_memory_rw_debug (cpu, addr, buf, size, false)\<close>: \<open>Some\<close> bytes for the result 0.\<close>

definition cpu_memory_read_debug :: "guest \<Rightarrow> u32 \<Rightarrow> nat \<Rightarrow> u8 list option \<times> guest" where
  "cpu_memory_read_debug g a n =
     (let g1 = run_guest g;
          g' = g1\<lparr>accesses := accesses g1 @ [Read_access a n]\<rparr>
      in if mapped g1 a n then (Some (peek g1 a n), g') else (None, g'))"

text \<open>\<open>cpu_memory_rw_debug (cpu, addr, data, size, true)\<close>: \<open>True\<close> for the result 0.\<close>

definition cpu_memory_write_debug :: "guest \<Rightarrow> u32 \<Rightarrow> u8 list \<Rightarrow> bool \<times> guest" where
  "cpu_memory_write_debug g a bs =
     (let g1 = run_guest g;
          g' = g1\<lparr>accesses := accesses g1 @ [Write_access a bs]\<rparr>
      in if mapped g1 a (length bs) then (True, g'\<lparr>cells := poke (cells g1) a bs\<rparr>)
         else (False, g'))"


section \<open>Virtual memory access (virtual-memory-access.c)\<close>

definition XBOX_VIRTUAL_HIGH_MEMORY_END :: u64 where
  "XBOX_VIRTUAL_HIGH_MEMORY_END = 0xFFFFFFFF"

definition xemu_virtual_memory_is_valid_address :: "u64 \<Rightarrow> bool" where
  "xemu_virtual_memory_is_valid_address addr = (addr \<le> XBOX_VIRTUAL_HIGH_MEMORY_END)"

text \<open>
  The caller's error buffer is \<open>None\<close> for a \<open>NULL\<close> pointer and \<open>Some size\<close> otherwise;
  the message that a call leaves in it is \<open>None\<close> when the buffer is not written
  (\<open>error_msg && error_msg_size > 0\<close> fails).  \<open>unsigned long\<close> has 64 bits (LP64).
\<close>

definition write_error_msg :: "nat option \<Rightarrow> string \<Rightarrow> string option" where
  "write_error_msg errbuf txt =
     (case errbuf of
        None \<Rightarrow> None
      | Some n \<Rightarrow> if n > 0 then Some (snprintf n txt) else None)"

text \<open>\<open>error_msg[0] = '\0'\<close> on success.\<close>

definition clear_error_msg :: "nat option \<Rightarrow> string option" where
  "clear_error_msg errbuf =
     (case errbuf of
        None \<Rightarrow> None
      | Some n \<Rightarrow> if n > 0 then Some [] else None)"

record vm_read_result =
  rd_ret :: int
  rd_buffer :: "u8 list option"
  rd_error_msg :: "string option"
  rd_guest :: guest

text \<open>
  The 64 bit \<open>virtual_addr\<close> reaches \<open>cpu_memory_rw_debug\<close> only when it is at most
  \<open>0xFFFFFFFF\<close>, so it is an address of the guest as it stands.
\<close>

definition xemu_virtual_memory_read :: "guest \<Rightarrow> u64 \<Rightarrow> nat \<Rightarrow> nat option \<Rightarrow> vm_read_result" where
  "xemu_virtual_memory_read g virtual_addr len errbuf =
     (if \<not> xemu_virtual_memory_is_valid_address virtual_addr then
        \<lparr>rd_ret = 0, rd_buffer = None,
         rd_error_msg = write_error_msg errbuf
           (''Invalid virtual address: 0x'' @ hex_fixed 16 (unat virtual_addr)),
         rd_guest = g\<rparr>
      else if \<not> cpu_present g then
        \<lparr>rd_ret = 0, rd_buffer = None,
         rd_error_msg = write_error_msg errbuf ''No CPU available for virtual memory read'',
         rd_guest = g\<rparr>
      else
        (case cpu_memory_read_debug g (ucast virtual_addr) len of
           (None, g') \<Rightarrow>
             \<lparr>rd_ret = 0, rd_buffer = None,
              rd_error_msg = write_error_msg errbuf
                (''Failed to read virtual memory at 0x'' @ hex_fixed 16 (unat virtual_addr)
                   @ '' (size: '' @ dec_string len @ '')''),
              rd_guest = g'\<rparr>
         | (Some bytes, g') \<Rightarrow>
             \<lparr>rd_ret = 1, rd_buffer = Some bytes,
              rd_error_msg = clear_error_msg errbuf, rd_guest = g'\<rparr>))"

record vm_write_result =
  wr_ret :: int
  wr_error_msg :: "string option"
  wr_guest :: guest

definition xemu_virtual_memory_write :: "guest \<Rightarrow> u64 \<Rightarrow> u8 list \<Rightarrow> nat option \<Rightarrow> vm_write_result" where
  "xemu_virtual_memory_write g virtual_addr data errbuf =
     (if \<not> xemu_virtual_memory_is_valid_address virtual_addr then
        \<lparr>wr_ret = 0,
         wr_error_msg = write_error_msg errbuf
           (''Invalid virtual address: 0x'' @ hex_fixed 16 (unat virtual_addr)),
         wr_guest = g\<rparr>
      else if \<not> cpu_present g then
        \<lparr>wr_ret = 0,
         wr_error_msg = write_error_msg errbuf ''No CPU available for virtual memory write'',
         wr_guest = g\<rparr>
      else
        (case cpu_memory_write_debug g (ucast virtual_addr) data of
           (False, g') \<Rightarrow>
             \<lparr>wr_ret = 0,
              wr_error_msg = write_error_msg errbuf
                (''Failed to write virtual memory at 0x'' @ hex_fixed 16 (unat virtual_addr)
                   @ '' (size: '' @ dec_string (length data) @ '')''),
              wr_guest = g'\<rparr>
         | (True, g') \<Rightarrow>
             \<lparr>wr_ret = 1, wr_error_msg = clear_error_msg errbuf, wr_guest = g'\<rparr>))"

text \<open>
  A guest with CPU 0 in which every address of the 32 bit space is mapped and holds zero,
  and which stands still.
\<close>

definition zero_guest :: guest where
  "zero_guest = \<lparr>cpu_present = True, cells = (\<lambda>a. Some 0), accesses = [], guest_runs = []\<rparr>"

lemma length_addr_range [simp]: "length (addr_range a n) = n"
  by (simp add: addr_range_def)

lemma length_peek [simp]: "length (peek g a n) = n"
  by (simp add: peek_def)

lemma addr_range_Suc [simp]: "addr_range a (Suc n) = a # addr_range (a + 1) n"
proof -
  have "[0..<Suc n] = 0 # map Suc [0..<n]"
    by (simp add: upt_conv_Cons map_Suc_upt del: upt_Suc)
  then show ?thesis
    by (simp add: addr_range_def comp_def add.assoc del: upt_Suc)
qed

lemma addr_range_0 [simp]: "addr_range a 0 = []"
  by (simp add: addr_range_def)

lemma addr_range_numeral [simp]:
  "addr_range a (numeral k) = a # addr_range (a + 1) (pred_numeral k)"
proof -
  have "numeral k = Suc (pred_numeral k)"
    by (rule numeral_eq_Suc)
  then show ?thesis
    by (simp only: addr_range_Suc)
qed

lemma hex_fixed_numeral:
  "hex_fixed (numeral k) n = hex_fixed (pred_numeral k) (n div 16) @ [hex_digit n]"
proof -
  have "numeral k = Suc (pred_numeral k)"
    by (rule numeral_eq_Suc)
  then show ?thesis
    by (simp only: hex_fixed.simps)
qed

lemma run_guest_fields [simp]:
  "cpu_present (run_guest g) = cpu_present g"
  "accesses (run_guest g) = accesses g"
  by (simp_all add: run_guest_def split: list.splits)

lemma run_guest_still [simp]: "guest_runs g = [] \<Longrightarrow> run_guest g = g"
  by (simp add: run_guest_def)

lemma vm_read_invalid:
  "\<not> xemu_virtual_memory_is_valid_address a \<Longrightarrow>
   xemu_virtual_memory_read g a len errbuf =
     \<lparr>rd_ret = 0, rd_buffer = None,
      rd_error_msg = write_error_msg errbuf
        (''Invalid virtual address: 0x'' @ hex_fixed 16 (unat a)),
      rd_guest = g\<rparr>"
  by (simp add: xemu_virtual_memory_read_def)

lemma vm_read_no_cpu:
  "xemu_virtual_memory_is_valid_address a \<Longrightarrow> \<not> cpu_present g \<Longrightarrow>
   xemu_virtual_memory_read g a len errbuf =
     \<lparr>rd_ret = 0, rd_buffer = None,
      rd_error_msg = write_error_msg errbuf ''No CPU available for virtual memory read'',
      rd_guest = g\<rparr>"
  by (simp add: xemu_virtual_memory_read_def)

lemma vm_read_unmapped:
  "xemu_virtual_memory_is_valid_address a \<Longrightarrow> cpu_present g \<Longrightarrow>
   \<not> mapped (run_guest g) (ucast a) len \<Longrightarrow>
   xemu_virtual_memory_read g a len errbuf =
     \<lparr>rd_ret = 0, rd_buffer = None,
      rd_error_msg = write_error_msg errbuf
        (''Failed to read virtual memory at 0x'' @ hex_fixed 16 (unat a)
           @ '' (size: '' @ dec_string len @ '')''),
      rd_guest = (run_guest g)\<lparr>accesses := accesses g @ [Read_access (ucast a) len]\<rparr>\<rparr>"
  by (simp add: xemu_virtual_memory_read_def cpu_memory_read_debug_def Let_def)

lemma vm_read_mapped:
  "xemu_virtual_memory_is_valid_address a \<Longrightarrow> cpu_present g \<Longrightarrow>
   mapped (run_guest g) (ucast a) len \<Longrightarrow>
   xemu_virtual_memory_read g a len errbuf =
     \<lparr>rd_ret = 1, rd_buffer = Some (peek (run_guest g) (ucast a) len),
      rd_error_msg = clear_error_msg errbuf,
      rd_guest = (run_guest g)\<lparr>accesses := accesses g @ [Read_access (ucast a) len]\<rparr>\<rparr>"
  by (simp add: xemu_virtual_memory_read_def cpu_memory_read_debug_def Let_def)

lemma vm_write_invalid:
  "\<not> xemu_virtual_memory_is_valid_address a \<Longrightarrow>
   xemu_virtual_memory_write g a data errbuf =
     \<lparr>wr_ret = 0,
      wr_error_msg = write_error_msg errbuf
        (''Invalid virtual address: 0x'' @ hex_fixed 16 (unat a)),
      wr_guest = g\<rparr>"
  by (simp add: xemu_virtual_memory_write_def)

lemma vm_write_no_cpu:
  "xemu_virtual_memory_is_valid_address a \<Longrightarrow> \<not> cpu_present g \<Longrightarrow>
   xemu_virtual_memory_write g a data errbuf =
     \<lparr>wr_ret = 0,
      wr_error_msg = write_error_msg errbuf ''No CPU available for virtual memory write'',
      wr_guest = g\<rparr>"
  by (simp add: xemu_virtual_memory_write_def)

lemma vm_write_unmapped:
  "xemu_virtual_memory_is_valid_address a \<Longrightarrow> cpu_present g \<Longrightarrow>
   \<not> mapped (run_guest g) (ucast a) (length data) \<Longrightarrow>
   xemu_virtual_memory_write g a data errbuf =
     \<lparr>wr_ret = 0,
      wr_error_msg = write_error_msg errbuf
        (''Failed to write virtual memory at 0x'' @ hex_fixed 16 (unat a)
           @ '' (size: '' @ dec_string (length data) @ '')''),
      wr_guest = (run_guest g)\<lparr>accesses := accesses g @ [Write_access (ucast a) data]\<rparr>\<rparr>"
  by (simp add: xemu_virtual_memory_write_def cpu_memory_write_debug_def Let_def)

lemma vm_write_mapped:
  "xemu_virtual_memory_is_valid_address a \<Longrightarrow> cpu_present g \<Longrightarrow>
   mapped (run_guest g) (ucast a) (length data) \<Longrightarrow>
   xemu_virtual_memory_write g a data errbuf =
     \<lparr>wr_ret = 1, wr_error_msg = clear_error_msg errbuf,
      wr_guest = (run_guest g)\<lparr>accesses := accesses g @ [Write_access (ucast a) data],
                   cells := poke (cells (run_guest g)) (ucast a) data\<rparr>\<rparr>"
  by (simp add: xemu_virtual_memory_write_def cpu_memory_write_debug_def Let_def)

lemma valid_address_le: "xemu_virtual_memory_is_valid_address a \<longleftrightarrow> a \<le> 0xFFFFFFFF"
  by (simp add: xemu_virtual_memory_is_valid_address_def XBOX_VIRTUAL_HIGH_MEMORY_END_def)

lemma valid_address_unat: "xemu_virtual_memory_is_valid_address a \<Longrightarrow> unat (ucast a :: u32) = unat a"
proof -
  assume "xemu_virtual_memory_is_valid_address a"
  then have "unat a \<le> unat (0xFFFFFFFF :: u64)"
    by (simp only: valid_address_le word_le_nat_alt)
  then have "unat a < 2 ^ 32" by simp
  then have "take_bit 32 (unat a) = unat a"
    by (simp only: take_bit_nat_eq_self_iff)
  then show ?thesis
    by (simp add: unsigned_ucast_eq)
qed

lemma poke_outside: "x \<notin> set (addr_range a (length bs)) \<Longrightarrow> poke m a bs x = m x"
  by (induction bs arbitrary: m a) auto

lemma debug_access_results:
  "fst (cpu_memory_read_debug g a n) \<noteq> None \<longleftrightarrow> mapped (run_guest g) a n"
  "fst (cpu_memory_write_debug g a bs) \<longleftrightarrow> mapped (run_guest g) a (length bs)"
  "(\<exists>y. fst (cpu_memory_read_debug g a n) = Some y) \<longleftrightarrow> mapped (run_guest g) a n"
  by (simp_all add: cpu_memory_read_debug_def cpu_memory_write_debug_def Let_def)

text \<open>
  Claim C10, the address guard.  A read or write whose address is above \<open>0xFFFFFFFF\<close>, or
  that is made without CPU 0, requests no guest access (the guest, with its bytes and its
  list of accesses, is as before), returns 0 and leaves the error text in the caller's
  buffer when there is one.  The result is 1 exactly when the address is valid, the CPU is
  present and the debug access of \<open>len\<close> bytes succeeds; a successful read delivers exactly
  \<open>len\<close> bytes.  A successful access lies within the 32 bit range as a whole, a successful
  write changes no byte outside its \<open>length data\<close> addresses, and the only access that a
  call adds to the list is the one at the given address.
\<close>

theorem virtual_memory_guard:
  "(\<not> xemu_virtual_memory_is_valid_address a \<or> \<not> cpu_present g \<longrightarrow>
      rd_ret (xemu_virtual_memory_read g a len errbuf) = 0 \<and>
      rd_guest (xemu_virtual_memory_read g a len errbuf) = g \<and>
      rd_error_msg (xemu_virtual_memory_read g a len errbuf) =
        write_error_msg errbuf
          (if \<not> xemu_virtual_memory_is_valid_address a
           then ''Invalid virtual address: 0x'' @ hex_fixed 16 (unat a)
           else ''No CPU available for virtual memory read'') \<and>
      wr_ret (xemu_virtual_memory_write g a data errbuf) = 0 \<and>
      wr_guest (xemu_virtual_memory_write g a data errbuf) = g \<and>
      wr_error_msg (xemu_virtual_memory_write g a data errbuf) =
        write_error_msg errbuf
          (if \<not> xemu_virtual_memory_is_valid_address a
           then ''Invalid virtual address: 0x'' @ hex_fixed 16 (unat a)
           else ''No CPU available for virtual memory write'') \<and>
      (\<forall>n. errbuf = Some n \<and> 0 < n \<longrightarrow>
         rd_error_msg (xemu_virtual_memory_read g a len errbuf) \<noteq> None \<and>
         wr_error_msg (xemu_virtual_memory_write g a data errbuf) \<noteq> None)) \<and>
   (rd_ret (xemu_virtual_memory_read g a len errbuf) = 1 \<longleftrightarrow>
      xemu_virtual_memory_is_valid_address a \<and> cpu_present g \<and>
      fst (cpu_memory_read_debug g (ucast a) len) \<noteq> None) \<and>
   (rd_ret (xemu_virtual_memory_read g a len errbuf) = 1 \<longrightarrow>
      rd_buffer (xemu_virtual_memory_read g a len errbuf) =
        Some (peek (run_guest g) (ucast a) len) \<and>
      length (peek (run_guest g) (ucast a) len) = len \<and>
      unat a + len \<le> 2 ^ 32) \<and>
   (wr_ret (xemu_virtual_memory_write g a data errbuf) = 1 \<longleftrightarrow>
      xemu_virtual_memory_is_valid_address a \<and> cpu_present g \<and>
      fst (cpu_memory_write_debug g (ucast a) data)) \<and>
   (wr_ret (xemu_virtual_memory_write g a data errbuf) = 1 \<longrightarrow>
      unat a + length data \<le> 2 ^ 32 \<and>
      (\<forall>x. x \<notin> set (addr_range (ucast a) (length data)) \<longrightarrow>
         cells (wr_guest (xemu_virtual_memory_write g a data errbuf)) x =
           cells (run_guest g) x)) \<and>
   (accesses (rd_guest (xemu_virtual_memory_read g a len errbuf)) = accesses g \<or>
    accesses (rd_guest (xemu_virtual_memory_read g a len errbuf)) =
      accesses g @ [Read_access (ucast a) len] \<and> a \<le> 0xFFFFFFFF) \<and>
   (accesses (wr_guest (xemu_virtual_memory_write g a data errbuf)) = accesses g \<or>
    accesses (wr_guest (xemu_virtual_memory_write g a data errbuf)) =
      accesses g @ [Write_access (ucast a) data] \<and> a \<le> 0xFFFFFFFF)"
proof (cases "xemu_virtual_memory_is_valid_address a")
  case False
  then show ?thesis
    by (simp add: vm_read_invalid vm_write_invalid write_error_msg_def)
next
  case valid: True
  show ?thesis
  proof (cases "cpu_present g")
    case False
    with valid show ?thesis
      by (simp add: vm_read_no_cpu vm_write_no_cpu write_error_msg_def)
  next
    case cpu: True
    have le: "a \<le> 0xFFFFFFFF"
      using valid by (simp add: valid_address_le)
    have ua: "unat (ucast a :: u32) = unat a"
      using valid by (rule valid_address_unat)
    have rd: "rd_ret (xemu_virtual_memory_read g a len errbuf) = 1 \<longleftrightarrow>
         mapped (run_guest g) (ucast a) len"
      "accesses (rd_guest (xemu_virtual_memory_read g a len errbuf)) =
         accesses g @ [Read_access (ucast a) len]"
      "mapped (run_guest g) (ucast a) len \<Longrightarrow>
         rd_buffer (xemu_virtual_memory_read g a len errbuf) =
           Some (peek (run_guest g) (ucast a) len)"
      using valid cpu
      by (cases "mapped (run_guest g) (ucast a) len"; simp add: vm_read_mapped vm_read_unmapped)+
    have wr: "wr_ret (xemu_virtual_memory_write g a data errbuf) = 1 \<longleftrightarrow>
         mapped (run_guest g) (ucast a) (length data)"
      "accesses (wr_guest (xemu_virtual_memory_write g a data errbuf)) =
         accesses g @ [Write_access (ucast a) data]"
      "mapped (run_guest g) (ucast a) (length data) \<Longrightarrow>
         cells (wr_guest (xemu_virtual_memory_write g a data errbuf)) =
           poke (cells (run_guest g)) (ucast a) data"
      using valid cpu
      by (cases "mapped (run_guest g) (ucast a) (length data)";
          simp add: vm_write_mapped vm_write_unmapped)+
    have top: "mapped (run_guest g) (ucast a) n \<Longrightarrow> unat a + n \<le> 2 ^ 32" for n
      using ua by (simp add: mapped_def)
    have c2: "rd_ret (xemu_virtual_memory_read g a len errbuf) = 1 \<longleftrightarrow>
      xemu_virtual_memory_is_valid_address a \<and> cpu_present g \<and>
      fst (cpu_memory_read_debug g (ucast a) len) \<noteq> None"
      using valid cpu rd(1) by (simp add: debug_access_results)
    have c3: "rd_ret (xemu_virtual_memory_read g a len errbuf) = 1 \<longrightarrow>
      rd_buffer (xemu_virtual_memory_read g a len errbuf) =
        Some (peek (run_guest g) (ucast a) len) \<and>
      length (peek (run_guest g) (ucast a) len) = len \<and>
      unat a + len \<le> 2 ^ 32"
      using rd(1) rd(3) top [of len] by simp
    have c4: "wr_ret (xemu_virtual_memory_write g a data errbuf) = 1 \<longleftrightarrow>
      xemu_virtual_memory_is_valid_address a \<and> cpu_present g \<and>
      fst (cpu_memory_write_debug g (ucast a) data)"
      using valid cpu wr(1) by (simp add: debug_access_results)
    have c5: "wr_ret (xemu_virtual_memory_write g a data errbuf) = 1 \<longrightarrow>
      unat a + length data \<le> 2 ^ 32 \<and>
      (\<forall>x. x \<notin> set (addr_range (ucast a) (length data)) \<longrightarrow>
         cells (wr_guest (xemu_virtual_memory_write g a data errbuf)) x =
           cells (run_guest g) x)"
      using wr(1) wr(3) top [of "length data"] by (simp add: poke_outside)
    from valid cpu le rd(2) wr(2) c2 c3 c4 c5 show ?thesis
      by simp
  qed
qed

theorem virtual_memory_guard_witness:
  "\<not> xemu_virtual_memory_is_valid_address 0x100000000 \<and>
   rd_ret (xemu_virtual_memory_read zero_guest 0x100000000 4 (Some 256)) = 0 \<and>
   rd_guest (xemu_virtual_memory_read zero_guest 0x100000000 4 (Some 256)) = zero_guest \<and>
   rd_error_msg (xemu_virtual_memory_read zero_guest 0x100000000 4 (Some 256)) =
     Some ''Invalid virtual address: 0x0000000100000000'' \<and>
   wr_ret (xemu_virtual_memory_write zero_guest 0x100000000 [1, 2] (Some 256)) = 0 \<and>
   wr_guest (xemu_virtual_memory_write zero_guest 0x100000000 [1, 2] (Some 256)) = zero_guest \<and>
   rd_ret (xemu_virtual_memory_read zero_guest 0x10000 4 None) = 1 \<and>
   rd_buffer (xemu_virtual_memory_read zero_guest 0x10000 4 None) = Some [0, 0, 0, 0] \<and>
   wr_ret (xemu_virtual_memory_write zero_guest 0xFFFFFFFF [1, 2] (Some 256)) = 0 \<and>
   cells (wr_guest (xemu_virtual_memory_write zero_guest 0xFFFFFFFF [1, 2] (Some 256))) =
     cells zero_guest"
proof -
  have inv: "\<not> xemu_virtual_memory_is_valid_address 0x100000000"
    by (simp add: xemu_virtual_memory_is_valid_address_def XBOX_VIRTUAL_HIGH_MEMORY_END_def)
  have val: "xemu_virtual_memory_is_valid_address 0x10000"
    by (simp add: xemu_virtual_memory_is_valid_address_def XBOX_VIRTUAL_HIGH_MEMORY_END_def)
  have hex: "hex_fixed 16 (unat (0x100000000 :: u64)) = ''0000000100000000''"
    by (simp add: hex_fixed_numeral hex_digit_def)
  have still: "run_guest zero_guest = zero_guest"
    by (simp add: zero_guest_def)
  have rd: "fst (cpu_memory_read_debug zero_guest 0x10000 4) \<noteq> None"
    by (simp add: debug_access_results still) (simp add: mapped_def zero_guest_def)
  have pk: "peek zero_guest 0x10000 4 = [0, 0, 0, 0]"
    by (simp add: peek_def zero_guest_def)
  have cpu: "cpu_present zero_guest"
    by (simp add: zero_guest_def)
  from virtual_memory_guard [of "0x100000000" zero_guest 4 "Some 256" "[1, 2]"] inv hex
  have a: "rd_ret (xemu_virtual_memory_read zero_guest 0x100000000 4 (Some 256)) = 0 \<and>
    rd_guest (xemu_virtual_memory_read zero_guest 0x100000000 4 (Some 256)) = zero_guest \<and>
    rd_error_msg (xemu_virtual_memory_read zero_guest 0x100000000 4 (Some 256)) =
      Some ''Invalid virtual address: 0x0000000100000000'' \<and>
    wr_ret (xemu_virtual_memory_write zero_guest 0x100000000 [1, 2] (Some 256)) = 0 \<and>
    wr_guest (xemu_virtual_memory_write zero_guest 0x100000000 [1, 2] (Some 256)) = zero_guest"
    by (simp add: write_error_msg_def snprintf_def)
  from virtual_memory_guard [of "0x10000" zero_guest 4 None "[]"] val cpu rd pk still
  have b: "rd_ret (xemu_virtual_memory_read zero_guest 0x10000 4 None) = 1 \<and>
    rd_buffer (xemu_virtual_memory_read zero_guest 0x10000 4 None) = Some [0, 0, 0, 0]"
    by simp
  have top: "\<not> mapped (run_guest zero_guest) (ucast (0xFFFFFFFF :: u64)) (length [1, 2 :: u8])"
    by (simp add: still mapped_def)
  have valt: "xemu_virtual_memory_is_valid_address 0xFFFFFFFF"
    by (simp add: xemu_virtual_memory_is_valid_address_def XBOX_VIRTUAL_HIGH_MEMORY_END_def)
  have c: "wr_ret (xemu_virtual_memory_write zero_guest 0xFFFFFFFF [1, 2] (Some 256)) = 0 \<and>
    cells (wr_guest (xemu_virtual_memory_write zero_guest 0xFFFFFFFF [1, 2] (Some 256))) =
      cells zero_guest"
    by (simp add: vm_write_unmapped [OF valt cpu top] still)
  from inv a b c show ?thesis by simp
qed


section \<open>The saved values store (xemu-patches.c, SAVE REPLACED VALUES SYSTEM)\<close>

definition MAX_SAVED_VALUES :: nat where
  "MAX_SAVED_VALUES = 1024"

text \<open>
  \<open>SavedValueEntry\<close>: \<open>data_length\<close> is the length of \<open>original_data\<close>.  The array
  \<open>g_saved_values\<close> with its counter \<open>g_saved_values_count\<close> is the list of its first
  \<open>g_saved_values_count\<close> slots; a pointer into the array is an index.
\<close>

record SavedValueEntry =
  sv_game_index :: int
  sv_patch_index :: int
  sv_address :: u32
  original_data :: "u8 list"

definition sv_matches :: "int \<Rightarrow> int \<Rightarrow> u32 \<Rightarrow> SavedValueEntry \<Rightarrow> bool" where
  "sv_matches game_index patch_index addr e =
     (sv_game_index e = game_index \<and> sv_patch_index e = patch_index \<and> sv_address e = addr)"

fun find_saved_value_from :: "nat \<Rightarrow> SavedValueEntry list \<Rightarrow> int \<Rightarrow> int \<Rightarrow> u32 \<Rightarrow> nat option" where
  "find_saved_value_from i [] game_index patch_index addr = None"
| "find_saved_value_from i (e # es) game_index patch_index addr =
     (if sv_matches game_index patch_index addr e then Some i
      else find_saved_value_from (Suc i) es game_index patch_index addr)"

definition find_saved_value :: "SavedValueEntry list \<Rightarrow> int \<Rightarrow> int \<Rightarrow> u32 \<Rightarrow> nat option" where
  "find_saved_value sv game_index patch_index addr =
     find_saved_value_from 0 sv game_index patch_index addr"

text \<open>\<open>add_saved_value\<close>: the returned pointer (\<open>None\<close> for \<open>NULL\<close>) and the new store.\<close>

definition add_saved_value ::
  "SavedValueEntry list \<Rightarrow> int \<Rightarrow> int \<Rightarrow> u32 \<Rightarrow> u8 list \<Rightarrow> nat option \<times> SavedValueEntry list" where
  "add_saved_value sv game_index patch_index addr data =
     (if length sv \<ge> MAX_SAVED_VALUES then (None, sv)
      else
        (case find_saved_value sv game_index patch_index addr of
           Some i \<Rightarrow> (Some i, sv[i := (sv ! i)\<lparr>original_data := data\<rparr>])
         | None \<Rightarrow>
             (Some (length sv),
              sv @ [\<lparr>sv_game_index = game_index, sv_patch_index = patch_index,
                     sv_address = addr, original_data = data\<rparr>])))"

text \<open>
  Removal of the slot \<open>i\<close>: \<open>if (i < count - 1) g_saved_values[i] = g_saved_values[count - 1];
  count--\<close>.
\<close>

definition remove_saved_at :: "nat \<Rightarrow> SavedValueEntry list \<Rightarrow> SavedValueEntry list" where
  "remove_saved_at i sv =
     (if i < length sv - 1 then butlast (sv[i := last sv]) else butlast sv)"

text \<open>
  The loop \<open>for (i = 0; i < count; i++) if (P (slot i)) { remove slot i; i--; }\<close> of
  \<open>xemu_patches_clear_saved_values_for_game\<close> and of \<open>xemu_patches_remove_patch\<close>.
\<close>

function clear_saved_loop ::
  "(SavedValueEntry \<Rightarrow> bool) \<Rightarrow> nat \<Rightarrow> SavedValueEntry list \<Rightarrow> SavedValueEntry list" where
  "clear_saved_loop P i sv =
     (if i < length sv then
        (if P (sv ! i) then clear_saved_loop P i (remove_saved_at i sv)
         else clear_saved_loop P (Suc i) sv)
      else sv)"
  by pat_completeness auto
termination
  by (relation "measure (\<lambda>(P, i, sv). length sv - i)") (auto simp: remove_saved_at_def)

declare clear_saved_loop.simps [simp del]

definition xemu_patches_clear_saved_values_for_game ::
  "int \<Rightarrow> SavedValueEntry list \<Rightarrow> SavedValueEntry list" where
  "xemu_patches_clear_saved_values_for_game game_index sv =
     clear_saved_loop (\<lambda>e. sv_game_index e = game_index) 0 sv"

definition xemu_patches_clear_all_saved_values :: "SavedValueEntry list \<Rightarrow> SavedValueEntry list" where
  "xemu_patches_clear_all_saved_values sv = []"

text \<open>The key of an entry, and the invariant of the store.\<close>

definition sv_key :: "SavedValueEntry \<Rightarrow> int \<times> int \<times> u32" where
  "sv_key e = (sv_game_index e, sv_patch_index e, sv_address e)"

definition saved_values_ok :: "SavedValueEntry list \<Rightarrow> bool" where
  "saved_values_ok sv = (distinct (map sv_key sv) \<and> length sv \<le> MAX_SAVED_VALUES)"

lemma find_saved_value_from_Some:
  "find_saved_value_from k sv g p a = Some i \<Longrightarrow>
   k \<le> i \<and> i - k < length sv \<and> sv_matches g p a (sv ! (i - k)) \<and>
   (\<forall>j < i - k. \<not> sv_matches g p a (sv ! j))"
proof (induction sv arbitrary: k)
  case Nil
  then show ?case by simp
next
  case (Cons e es)
  show ?case
  proof (cases "sv_matches g p a e")
    case True
    with Cons.prems show ?thesis by simp
  next
    case False
    with Cons.prems have "find_saved_value_from (Suc k) es g p a = Some i" by simp
    from Cons.IH [OF this]
    have ih: "Suc k \<le> i" "i - Suc k < length es" "sv_matches g p a (es ! (i - Suc k))"
      "\<forall>j < i - Suc k. \<not> sv_matches g p a (es ! j)"
      by simp_all
    from ih(1) have eq: "i - k = Suc (i - Suc k)" by simp
    have "\<forall>j < Suc (i - Suc k). \<not> sv_matches g p a ((e # es) ! j)"
      using False ih(4) by (simp add: nth_Cons split: nat.splits)
    with ih eq show ?thesis by simp
  qed
qed

lemma find_saved_value_from_None:
  "find_saved_value_from k sv g p a = None \<longleftrightarrow> (\<forall>e \<in> set sv. \<not> sv_matches g p a e)"
  by (induction sv arbitrary: k) auto

lemma sv_matches_key: "sv_matches g p a e \<longleftrightarrow> sv_key e = (g, p, a)"
  by (auto simp: sv_matches_def sv_key_def)

lemma find_saved_value_Some:
  "find_saved_value sv g p a = Some i \<Longrightarrow>
   i < length sv \<and> sv_key (sv ! i) = (g, p, a) \<and> (\<forall>j < i. sv_key (sv ! j) \<noteq> (g, p, a))"
  using find_saved_value_from_Some [of 0 sv g p a i]
  by (simp add: find_saved_value_def sv_matches_key)

lemma find_saved_value_None:
  "find_saved_value sv g p a = None \<longleftrightarrow> (g, p, a) \<notin> set (map sv_key sv)"
  by (auto simp: find_saved_value_def find_saved_value_from_None sv_matches_key image_iff)

lemma butlast_last_mset: "xs \<noteq> [] \<Longrightarrow> add_mset (last xs) (mset (butlast xs)) = mset xs"
  by (induction xs) auto

lemma mset_remove_saved_at:
  assumes i: "i < length sv"
  shows "mset (remove_saved_at i sv) = mset sv - {#sv ! i#}"
proof -
  from i have ne: "sv \<noteq> []" by auto
  show ?thesis
  proof (cases "i < length sv - 1")
    case True
    have "mset (sv[i := last sv]) = add_mset (last sv) (mset sv - {#sv ! i#})"
      using i by (simp add: mset_update)
    moreover have "sv[i := last sv] \<noteq> []" using ne by simp
    moreover have "last (sv[i := last sv]) = last sv"
      using True ne by (simp add: last_conv_nth)
    ultimately have "add_mset (last sv) (mset (butlast (sv[i := last sv])))
        = add_mset (last sv) (mset sv - {#sv ! i#})"
      using butlast_last_mset [of "sv[i := last sv]"] by simp
    then show ?thesis using True by (simp add: remove_saved_at_def)
  next
    case False
    with i have "i = length sv - 1" by simp
    then have "sv ! i = last sv" using ne by (simp add: last_conv_nth)
    with butlast_last_mset [OF ne] have "mset (butlast sv) = mset sv - {#sv ! i#}"
      by (metis add_mset_remove_trivial)
    then show ?thesis using False
      by (simp add: remove_saved_at_def)
  qed
qed

lemma length_remove_saved_at [simp]: "length (remove_saved_at i sv) = length sv - 1"
  by (simp add: remove_saved_at_def)

lemma remove_saved_at_nth_less:
  "j < i \<Longrightarrow> i < length sv \<Longrightarrow> remove_saved_at i sv ! j = sv ! j"
  by (simp add: remove_saved_at_def nth_butlast)

lemma distinct_mset_subseteq:
  assumes "distinct ys" "mset xs \<subseteq># mset ys"
  shows "distinct xs"
proof -
  have "count (mset xs) a = (if a \<in> set xs then 1 else 0)" for a
  proof (cases "a \<in> set xs")
    case True
    then have "0 < count (mset xs) a" by (rule count_mset_gt_0)
    moreover have "count (mset xs) a \<le> count (mset ys) a"
      using assms(2) by (rule mset_subset_eq_count)
    moreover have "count (mset ys) a \<le> 1"
      using assms(1) by (simp add: distinct_count_atmost_1)
    ultimately have "count (mset xs) a = 1" by arith
    with True show ?thesis by simp
  next
    case False
    then show ?thesis by simp
  qed
  then show ?thesis by (simp add: distinct_count_atmost_1)
qed

lemma saved_values_ok_mono:
  assumes "saved_values_ok sv" "mset sv' \<subseteq># mset sv"
  shows "saved_values_ok sv'"
proof -
  from assms(2) have "image_mset sv_key (mset sv') \<subseteq># image_mset sv_key (mset sv)"
    by (rule image_mset_subseteq_mono)
  then have sub: "mset (map sv_key sv') \<subseteq># mset (map sv_key sv)"
    by simp
  from assms(1) have "distinct (map sv_key sv)" by (simp add: saved_values_ok_def)
  then have "distinct (map sv_key sv')"
    using sub by (rule distinct_mset_subseteq)
  moreover from assms(2) have "size (mset sv') \<le> size (mset sv)"
    by (rule size_mset_mono)
  ultimately show ?thesis using assms(1) by (simp add: saved_values_ok_def)
qed

lemma clear_saved_loop_stop:
  assumes "\<not> i < length sv" "\<forall>j < i. \<not> P (sv ! j)"
  shows "filter_mset (\<lambda>e. \<not> P e) (mset sv) = mset sv"
proof -
  have "\<not> P e" if "e \<in> set sv" for e
  proof -
    from that obtain j where "j < length sv" "sv ! j = e"
      by (auto simp: in_set_conv_nth)
    with assms show ?thesis by auto
  qed
  then show ?thesis by (simp add: filter_mset_eq_conv)
qed

lemma clear_saved_loop_mset:
  "\<forall>j < i. \<not> P (sv ! j) \<Longrightarrow>
   mset (clear_saved_loop P i sv) = filter_mset (\<lambda>e. \<not> P e) (mset sv)"
proof (induction P i sv rule: clear_saved_loop.induct)
  case (1 P i sv)
  show ?case
  proof (cases "i < length sv")
    case False
    from clear_saved_loop_stop [OF False "1.prems"] False show ?thesis
      by (simp add: clear_saved_loop.simps [of P i sv])
  next
    case lt: True
    show ?thesis
    proof (cases "P (sv ! i)")
      case True
      have pre: "\<forall>j < i. \<not> P (remove_saved_at i sv ! j)"
        using "1.prems" lt by (simp add: remove_saved_at_nth_less)
      have "mset (clear_saved_loop P i sv) = mset (clear_saved_loop P i (remove_saved_at i sv))"
        using lt True by (simp add: clear_saved_loop.simps [of P i sv])
      also have "\<dots> = filter_mset (\<lambda>e. \<not> P e) (mset (remove_saved_at i sv))"
        using "1.IH"(1) [OF lt True pre] .
      also have "\<dots> = filter_mset (\<lambda>e. \<not> P e) (mset sv - {#sv ! i#})"
        using lt by (simp add: mset_remove_saved_at)
      also have "\<dots> = filter_mset (\<lambda>e. \<not> P e) (mset sv)"
        using True by simp
      finally show ?thesis .
    next
      case False
      have pre: "\<forall>j < Suc i. \<not> P (sv ! j)"
        using "1.prems" False by (simp add: less_Suc_eq)
      have "mset (clear_saved_loop P i sv) = mset (clear_saved_loop P (Suc i) sv)"
        using lt False by (simp add: clear_saved_loop.simps [of P i sv])
      with "1.IH"(2) [OF lt False pre] show ?thesis by simp
    qed
  qed
qed

lemma clear_saved_loop_0_mset:
  "mset (clear_saved_loop P 0 sv) = filter_mset (\<lambda>e. \<not> P e) (mset sv)"
  by (rule clear_saved_loop_mset) simp

lemma saved_values_ok_clear_loop:
  "saved_values_ok sv \<Longrightarrow> saved_values_ok (clear_saved_loop P 0 sv)"
  by (erule saved_values_ok_mono) (simp add: clear_saved_loop_0_mset)

lemma saved_values_ok_remove_at:
  "saved_values_ok sv \<Longrightarrow> i < length sv \<Longrightarrow> saved_values_ok (remove_saved_at i sv)"
  by (erule saved_values_ok_mono) (simp add: mset_remove_saved_at)

lemma add_saved_value_full:
  "MAX_SAVED_VALUES \<le> length sv \<Longrightarrow> add_saved_value sv g p a d = (None, sv)"
  by (simp add: add_saved_value_def)

lemma add_saved_value_existing:
  "length sv < MAX_SAVED_VALUES \<Longrightarrow> find_saved_value sv g p a = Some i \<Longrightarrow>
   add_saved_value sv g p a d = (Some i, sv[i := (sv ! i)\<lparr>original_data := d\<rparr>])"
  by (simp add: add_saved_value_def)

lemma add_saved_value_new:
  "length sv < MAX_SAVED_VALUES \<Longrightarrow> find_saved_value sv g p a = None \<Longrightarrow>
   add_saved_value sv g p a d =
     (Some (length sv),
      sv @ [\<lparr>sv_game_index = g, sv_patch_index = p, sv_address = a, original_data = d\<rparr>])"
  by (simp add: add_saved_value_def)

lemma map_sv_key_update:
  "i < length sv \<Longrightarrow> map sv_key (sv[i := (sv ! i)\<lparr>original_data := d\<rparr>]) = map sv_key sv"
  by (simp add: map_update sv_key_def list_update_same_conv)

lemma saved_values_ok_add:
  assumes "saved_values_ok sv"
  shows "saved_values_ok (snd (add_saved_value sv g p a d))"
proof (cases "MAX_SAVED_VALUES \<le> length sv")
  case True
  with assms show ?thesis by (simp add: add_saved_value_full)
next
  case False
  then have lt: "length sv < MAX_SAVED_VALUES" by simp
  show ?thesis
  proof (cases "find_saved_value sv g p a")
    case None
    then have "(g, p, a) \<notin> set (map sv_key sv)" by (simp add: find_saved_value_None)
    with assms lt None show ?thesis
      by (simp add: add_saved_value_new saved_values_ok_def sv_key_def)
  next
    case (Some i)
    then have "i < length sv" by (simp add: find_saved_value_Some)
    with assms lt Some show ?thesis
      by (simp add: add_saved_value_existing saved_values_ok_def map_sv_key_update)
  qed
qed

text \<open>
  C9.  The store starts empty.  Whenever it holds at most one entry for each
  (game index, patch index, address) and at most \<open>MAX_SAVED_VALUES\<close> entries, it still
  does after \<open>add_saved_value\<close>, after the clearing loops (for a game, for a patch, for
  all) and after the removal of one slot.  An add for a key that is present replaces the
  bytes of that entry in place (same length, same keys); an add on a full store returns
  \<open>NULL\<close> and leaves the store as it is.
\<close>

theorem saved_values_store_invariant:
  assumes "saved_values_ok sv"
  shows "saved_values_ok [] \<and>
    saved_values_ok (snd (add_saved_value sv g p a d)) \<and>
    (length sv < MAX_SAVED_VALUES \<longrightarrow>
       (\<forall>i. find_saved_value sv g p a = Some i \<longrightarrow>
          add_saved_value sv g p a d = (Some i, sv[i := (sv ! i)\<lparr>original_data := d\<rparr>]) \<and>
          length (snd (add_saved_value sv g p a d)) = length sv \<and>
          map sv_key (snd (add_saved_value sv g p a d)) = map sv_key sv)) \<and>
    (MAX_SAVED_VALUES \<le> length sv \<longrightarrow> add_saved_value sv g p a d = (None, sv)) \<and>
    saved_values_ok (clear_saved_loop P 0 sv) \<and>
    saved_values_ok (xemu_patches_clear_saved_values_for_game g sv) \<and>
    saved_values_ok (xemu_patches_clear_all_saved_values sv) \<and>
    (j < length sv \<longrightarrow> saved_values_ok (remove_saved_at j sv))"
proof -
  have empty: "saved_values_ok []"
    by (simp add: saved_values_ok_def)
  have existing: "add_saved_value sv g p a d = (Some i, sv[i := (sv ! i)\<lparr>original_data := d\<rparr>]) \<and>
      length (snd (add_saved_value sv g p a d)) = length sv \<and>
      map sv_key (snd (add_saved_value sv g p a d)) = map sv_key sv"
    if "length sv < MAX_SAVED_VALUES" "find_saved_value sv g p a = Some i" for i
  proof -
    from that(2) have "i < length sv" by (simp add: find_saved_value_Some)
    with that show ?thesis
      by (simp add: add_saved_value_existing map_sv_key_update)
  qed
  have c1: "saved_values_ok (snd (add_saved_value sv g p a d))"
    using assms by (rule saved_values_ok_add)
  have c2: "MAX_SAVED_VALUES \<le> length sv \<longrightarrow> add_saved_value sv g p a d = (None, sv)"
    by (simp add: add_saved_value_full)
  have c3: "saved_values_ok (clear_saved_loop P 0 sv)"
    using assms by (rule saved_values_ok_clear_loop)
  have c4: "saved_values_ok (xemu_patches_clear_saved_values_for_game g sv)"
    using assms by (simp add: xemu_patches_clear_saved_values_for_game_def saved_values_ok_clear_loop)
  have c5: "saved_values_ok (xemu_patches_clear_all_saved_values sv)"
    using empty by (simp add: xemu_patches_clear_all_saved_values_def)
  have c6: "j < length sv \<longrightarrow> saved_values_ok (remove_saved_at j sv)"
    using assms by (simp add: saved_values_ok_remove_at)
  from empty existing c1 c2 c3 c4 c5 c6 show ?thesis
    by blast
qed

theorem saved_values_store_invariant_witness:
  "saved_values_ok
     [\<lparr>sv_game_index = 0, sv_patch_index = 0, sv_address = 0x123456, original_data = [1]\<rparr>] \<and>
   add_saved_value
     [\<lparr>sv_game_index = 0, sv_patch_index = 0, sv_address = 0x123456, original_data = [1]\<rparr>]
     0 0 0x123456 [2] =
     (Some 0,
      [\<lparr>sv_game_index = 0, sv_patch_index = 0, sv_address = 0x123456, original_data = [2]\<rparr>]) \<and>
   saved_values_ok (snd (add_saved_value
     [\<lparr>sv_game_index = 0, sv_patch_index = 0, sv_address = 0x123456, original_data = [1]\<rparr>]
     0 0 0x123456 [2]))"
proof -
  have ok: "saved_values_ok
     [\<lparr>sv_game_index = 0, sv_patch_index = 0, sv_address = 0x123456, original_data = [1]\<rparr>]"
    by (simp add: saved_values_ok_def MAX_SAVED_VALUES_def)
  have found: "find_saved_value
     [\<lparr>sv_game_index = 0, sv_patch_index = 0, sv_address = 0x123456, original_data = [1]\<rparr>]
     0 0 0x123456 = Some 0"
    by (simp add: find_saved_value_def sv_matches_def)
  from saved_values_store_invariant
         [OF ok, where g = 0 and p = 0 and a = "0x123456" and d = "[2]"
          and P = "\<lambda>e. False" and j = 0] ok found
  show ?thesis
    by (simp add: MAX_SAVED_VALUES_def saved_values_ok_def)
qed


section \<open>The patch database (xemu-patches.h)\<close>

text \<open>
  \<open>XemuPatchAddressValue\<close>: \<open>value_length\<close> is the length of \<open>value_data\<close> (the parsers
  allocate exactly that many bytes; \<open>g_new\<close> of zero bytes is \<open>NULL\<close>, so the empty
  list stands for both \<open>value_data == NULL\<close> and \<open>value_length == 0\<close>).
\<close>

record XemuPatchAddressValue =
  address :: u32
  value_data :: "u8 list"

text \<open>
  \<open>XemuMemoryPatch\<close>: \<open>address_value_count\<close> and \<open>address_value_lines_count\<close> are the
  lengths of the two lists, and an empty list stands for the \<open>NULL\<close> array.  The fields
  \<open>saved_original_values\<close> and \<open>saved_value_lengths\<close> are never used by the code.
\<close>

record XemuMemoryPatch =
  address_values :: "XemuPatchAddressValue list"
  patch_enabled :: bool
  name :: "string option"
  category :: "string option"
  author :: "string option"
  patch_notes :: "string option"
  address_value_lines :: "string list"
  save_replaced_values :: bool

record XemuGamePatches =
  game_title :: "string option"
  region :: "string option"
  title_id :: "string option"
  version :: "string option"
  alternate_title_id :: "string option"
  time_date :: "string option"
  disc_number :: "string option"
  patches :: "XemuMemoryPatch list"
  game_enabled :: bool

text \<open>
  \<open>XemuPatchesDatabase\<close>: \<open>games\<close> is \<open>None\<close> for the \<open>NULL\<close> array (then
  \<open>game_count\<close> is 0) and \<open>Some\<close> of the first \<open>game_count\<close> entries otherwise.
\<close>

record XemuPatchesDatabase =
  games :: "XemuGamePatches list option"
  file_path :: "string option"
  dirty :: bool

definition game_list :: "XemuPatchesDatabase \<Rightarrow> XemuGamePatches list" where
  "game_list db = (case games db of None \<Rightarrow> [] | Some gs \<Rightarrow> gs)"

definition game_count :: "XemuPatchesDatabase \<Rightarrow> int" where
  "game_count db = int (length (game_list db))"

definition patch_count :: "XemuGamePatches \<Rightarrow> int" where
  "patch_count game = int (length (patches game))"


section \<open>The engine state and its environment\<close>

text \<open>
  What the engine reads from its collaborators during one call; it is taken to be
  constant for the duration of the call (the engine is single threaded and driven by the
  host's ticks).
\<close>

record env =
  time_now :: u64
  sdl_ticks :: u64
  system_memory :: bool
  phys_readable :: bool
  xbe_cert :: "(u32 \<times> u32 \<times> u32) option"
  fopen_w_ok :: bool
  fclose_ok :: bool
  base_path :: string

text \<open>
  \<open>time_now\<close> is \<open>time (NULL)\<close>, \<open>sdl_ticks\<close> is \<open>SDL_GetTicks ()\<close>,
  \<open>system_memory\<close> is \<open>get_system_memory () != NULL\<close>, \<open>phys_readable\<close> says that
  \<open>address_space_read\<close> of the four bytes at physical \<open>0x00010000\<close> gives \<open>MEMTX_OK\<close>,
  \<open>xbe_cert\<close> is the title id, game region and version of the certificate of
  \<open>xemu_get_xbe_info ()\<close> (\<open>None\<close> when there is no XBE or no certificate),
  \<open>fopen_w_ok\<close> and \<open>fclose_ok\<close> say whether opening the database file for writing and
  closing it succeed, \<open>base_path\<close> is \<open>SDL_GetBasePath ()\<close>.
\<close>

datatype engine_error = Stack_buffer_overflow | Null_dereference

text \<open>
  The entries of \<open>g_reset_monitored_addresses\<close> below \<open>g_reset_monitored_count\<close>.  The
  values that the monitor records (\<open>value_before\<close>, \<open>value_after\<close>, ..., \<open>start_time\<close>,
  \<open>patch_name\<close>) are only ever written, never read by the code modelled here; the
  model keeps the address and the \<open>monitoring_active\<close> flag, which decide the guest
  reads that the monitor performs.
\<close>

record reset_monitored_address_t =
  rm_address :: u32
  monitoring_active :: bool

definition MAX_RESET_MONITORED_ADDRESSES :: nat where
  "MAX_RESET_MONITORED_ADDRESSES = 32"

text \<open>
  The globals of the patch store and applier, the guest, the queues of the Notification
  Sink (\<open>xemu_queue_notification\<close>, \<open>xemu_queue_error_message\<close>) and the files on disk.
\<close>

record pstate =
  g_patches_db :: XemuPatchesDatabase
  g_patches_loaded :: bool
  g_patches_initialized :: bool
  g_save_in_progress :: bool
  g_saved_values :: "SavedValueEntry list"
  g_reset_monitoring_active :: bool
  g_reset_monitored_addresses :: "reset_monitored_address_t list"
  guest_mem :: guest
  notifications :: "string list"
  error_messages :: "string list"
  files :: "string \<Rightarrow> string option"

definition xemu_queue_notification :: "string \<Rightarrow> 'a pstate_scheme \<Rightarrow> 'a pstate_scheme" where
  "xemu_queue_notification msg s = s\<lparr>notifications := notifications s @ [msg]\<rparr>"

definition xemu_queue_error_message :: "string \<Rightarrow> 'a pstate_scheme \<Rightarrow> 'a pstate_scheme" where
  "xemu_queue_error_message msg s = s\<lparr>error_messages := error_messages s @ [msg]\<rparr>"


section \<open>Direct virtual memory access and reset monitoring\<close>

text \<open>\<open>write_direct_virtual_memory\<close> and \<open>read_direct_virtual_memory\<close> pass a 256 byte error buffer.\<close>

definition write_direct_virtual_memory ::
  "'a pstate_scheme \<Rightarrow> u64 \<Rightarrow> u8 list \<Rightarrow> bool \<times> 'a pstate_scheme" where
  "write_direct_virtual_memory s vaddr buf =
     (let r = xemu_virtual_memory_write (guest_mem s) vaddr buf (Some 256)
      in (wr_ret r \<noteq> 0, s\<lparr>guest_mem := wr_guest r\<rparr>))"

definition read_direct_virtual_memory ::
  "'a pstate_scheme \<Rightarrow> u64 \<Rightarrow> nat \<Rightarrow> u8 list option \<times> 'a pstate_scheme" where
  "read_direct_virtual_memory s vaddr len =
     (let r = xemu_virtual_memory_read (guest_mem s) vaddr len (Some 256)
      in (if rd_ret r \<noteq> 0 then rd_buffer r else None, s\<lparr>guest_mem := rd_guest r\<rparr>))"

text \<open>
  \<open>read_32bit_value\<close>: the little endian value of the four bytes and the success flag.
\<close>

definition le32 :: "u8 list \<Rightarrow> u32" where
  "le32 bs = ucast (bs ! 0) OR push_bit 8 (ucast (bs ! 1)) OR push_bit 16 (ucast (bs ! 2))
             OR push_bit 24 (ucast (bs ! 3))"

definition read_32bit_value :: "'a pstate_scheme \<Rightarrow> u32 \<Rightarrow> (u32 \<times> bool) \<times> 'a pstate_scheme" where
  "read_32bit_value s addr =
     (let r = xemu_virtual_memory_read (guest_mem s) (ucast addr) 4 (Some 256);
          s' = s\<lparr>guest_mem := rd_guest r\<rparr>
      in if rd_ret r \<noteq> 0 then ((le32 (the (rd_buffer r)), True), s') else ((0, False), s'))"

definition start_reset_memory_monitoring :: "'a pstate_scheme \<Rightarrow> 'a pstate_scheme" where
  "start_reset_memory_monitoring s =
     s\<lparr>g_reset_monitoring_active := True, g_reset_monitored_addresses := []\<rparr>"

definition stop_reset_memory_monitoring :: "'a pstate_scheme \<Rightarrow> 'a pstate_scheme" where
  "stop_reset_memory_monitoring s = s\<lparr>g_reset_monitoring_active := False\<rparr>"

definition monitor_reset_patch_address :: "'a pstate_scheme \<Rightarrow> u32 \<Rightarrow> 'a pstate_scheme" where
  "monitor_reset_patch_address s addr =
     (if \<not> g_reset_monitoring_active s \<or>
         length (g_reset_monitored_addresses s) \<ge> MAX_RESET_MONITORED_ADDRESSES then s
      else if addr \<in> set (map rm_address (g_reset_monitored_addresses s)) then s
      else
        snd (read_32bit_value
          (s\<lparr>g_reset_monitored_addresses := g_reset_monitored_addresses s @
                [\<lparr>rm_address = addr, monitoring_active = True\<rparr>]\<rparr>) addr))"

text \<open>
  \<open>log_reset_memory_values\<close>: one read of four bytes for every active entry with the
  address; the value read is stored in the entry.
\<close>

fun log_reset_entries :: "reset_monitored_address_t list \<Rightarrow> u32 \<Rightarrow> 'a pstate_scheme \<Rightarrow> 'a pstate_scheme" where
  "log_reset_entries [] addr s = s"
| "log_reset_entries (e # es) addr s =
     (if \<not> monitoring_active e \<or> rm_address e \<noteq> addr then log_reset_entries es addr s
      else log_reset_entries es addr (snd (read_32bit_value s addr)))"

definition log_reset_memory_values :: "'a pstate_scheme \<Rightarrow> u32 \<Rightarrow> 'a pstate_scheme" where
  "log_reset_memory_values s addr =
     (if \<not> g_reset_monitoring_active s then s
      else log_reset_entries (g_reset_monitored_addresses s) addr s)"


section \<open>Applying and restoring patches\<close>

text \<open>
  \<open>apply_single_patch_bytes\<close> with \<open>original_value_buffer == NULL\<close>, as in every call of
  the sources.  The test read asks for \<open>MIN (value_length, 16)\<close> bytes.
\<close>

definition apply_single_patch_bytes ::
  "'a pstate_scheme \<Rightarrow> u32 \<Rightarrow> u8 list \<Rightarrow> bool \<times> 'a pstate_scheme" where
  "apply_single_patch_bytes s addr value =
     (if value = [] then (False, s)
      else
        let s1 = (if g_reset_monitoring_active s then monitor_reset_patch_address s addr else s);
            r = xemu_virtual_memory_read (guest_mem s1) (ucast addr) (min (length value) 16)
                  (Some 256);
            s2 = s1\<lparr>guest_mem := rd_guest r\<rparr>
        in if rd_ret r = 0 then (False, s2)
           else
             (case write_direct_virtual_memory s2 (ucast addr) value of
                (write_success, s3) \<Rightarrow>
                  (write_success,
                   if g_reset_monitoring_active s3 \<and> write_success
                   then log_reset_memory_values s3 addr else s3)))"

text \<open>
  The body of the loop of \<open>xemu_patches_apply_patch_with_save_restore\<close> for one
  address:value pair: the result is \<open>patch_success\<close>.  The original bytes are read into
  \<open>captured_original_value[16]\<close>: a successful read of more than 16 bytes overruns it.
  The pointer that \<open>add_saved_value\<close> returns is not looked at.
\<close>

definition apply_pair_with_save ::
  "bool \<Rightarrow> int \<Rightarrow> int \<Rightarrow> XemuPatchAddressValue \<Rightarrow> 'a pstate_scheme \<Rightarrow>
   engine_error + bool \<times> 'a pstate_scheme" where
  "apply_pair_with_save save game_index patch_index av s =
     (if save then
        (case read_direct_virtual_memory s (ucast (address av)) (length (value_data av)) of
           (Some captured, s1) \<Rightarrow>
             if length (value_data av) > 16 then Inl Stack_buffer_overflow
             else
               Inr (apply_single_patch_bytes
                 (s1\<lparr>g_saved_values :=
                      snd (add_saved_value (g_saved_values s1) game_index patch_index
                             (address av) captured)\<rparr>)
                 (address av) (value_data av))
         | (None, s1) \<Rightarrow> Inr (apply_single_patch_bytes s1 (address av) (value_data av)))
      else Inr (apply_single_patch_bytes s (address av) (value_data av)))"

text \<open>The loop; \<open>ok\<close> is \<open>all_success\<close>.\<close>

fun apply_pairs_with_save ::
  "bool \<Rightarrow> int \<Rightarrow> int \<Rightarrow> XemuPatchAddressValue list \<Rightarrow> bool \<Rightarrow> 'a pstate_scheme \<Rightarrow>
   engine_error + bool \<times> 'a pstate_scheme" where
  "apply_pairs_with_save save game_index patch_index [] ok s = Inr (ok, s)"
| "apply_pairs_with_save save game_index patch_index (av # avs) ok s =
     (case apply_pair_with_save save game_index patch_index av s of
        Inl err \<Rightarrow> Inl err
      | Inr (patch_success, s') \<Rightarrow>
          apply_pairs_with_save save game_index patch_index avs (ok \<and> patch_success) s')"

text \<open>
  \<open>xemu_patches_apply_patch_with_save_restore\<close>; the patch pointer is never \<open>NULL\<close> in
  the callers.
\<close>

definition xemu_patches_apply_patch_with_save_restore ::
  "env \<Rightarrow> 'a pstate_scheme \<Rightarrow> XemuMemoryPatch \<Rightarrow> int \<Rightarrow> int \<Rightarrow>
   engine_error + bool \<times> 'a pstate_scheme" where
  "xemu_patches_apply_patch_with_save_restore e s patch game_index patch_index =
     (if \<not> system_memory e then Inr (False, s)
      else apply_pairs_with_save (save_replaced_values patch) game_index patch_index
             (address_values patch) True s)"

text \<open>
  The body of the loop of \<open>xemu_patches_remove_patch_with_restore\<close> for one pair: the
  result is \<open>False\<close> when the restoring write failed.  The verification reads
  \<open>data_length\<close> bytes into \<open>verify_memory[16]\<close>; its outcome changes nothing.
\<close>

definition restore_pair ::
  "bool \<Rightarrow> int \<Rightarrow> int \<Rightarrow> XemuPatchAddressValue \<Rightarrow> 'a pstate_scheme \<Rightarrow>
   engine_error + bool \<times> 'a pstate_scheme" where
  "restore_pair save game_index patch_index av s =
     (if save then
        (case find_saved_value (g_saved_values s) game_index patch_index (address av) of
           Some i \<Rightarrow>
             (let saved = g_saved_values s ! i in
              case apply_single_patch_bytes s (address av) (original_data saved) of
                (True, s1) \<Rightarrow>
                  (case read_direct_virtual_memory s1 (ucast (address av))
                          (length (original_data saved)) of
                     (Some verify_memory, s2) \<Rightarrow>
                       if length (original_data saved) > 16 then Inl Stack_buffer_overflow
                       else Inr (True,
                              s2\<lparr>g_saved_values := remove_saved_at i (g_saved_values s2)\<rparr>)
                   | (None, s2) \<Rightarrow>
                       Inr (True, s2\<lparr>g_saved_values := remove_saved_at i (g_saved_values s2)\<rparr>))
              | (False, s1) \<Rightarrow>
                  Inr (False, s1\<lparr>g_saved_values := remove_saved_at i (g_saved_values s1)\<rparr>))
         | None \<Rightarrow> Inr (True, s))
      else Inr (True, s))"

fun restore_pairs ::
  "bool \<Rightarrow> int \<Rightarrow> int \<Rightarrow> XemuPatchAddressValue list \<Rightarrow> bool \<Rightarrow> 'a pstate_scheme \<Rightarrow>
   engine_error + bool \<times> 'a pstate_scheme" where
  "restore_pairs save game_index patch_index [] ok s = Inr (ok, s)"
| "restore_pairs save game_index patch_index (av # avs) ok s =
     (case restore_pair save game_index patch_index av s of
        Inl err \<Rightarrow> Inl err
      | Inr (restored, s') \<Rightarrow>
          restore_pairs save game_index patch_index avs (ok \<and> restored) s')"

definition xemu_patches_remove_patch_with_restore ::
  "'a pstate_scheme \<Rightarrow> int \<Rightarrow> int \<Rightarrow> engine_error + bool \<times> 'a pstate_scheme" where
  "xemu_patches_remove_patch_with_restore s game_index patch_index =
     (let db = g_patches_db s in
      if game_index < 0 \<or> game_index \<ge> game_count db then Inr (False, s)
      else
        let game = game_list db ! nat game_index in
        if patch_index < 0 \<or> patch_index \<ge> patch_count game then Inr (False, s)
        else
          let patch = patches game ! nat patch_index in
          restore_pairs (save_replaced_values patch) game_index patch_index
            (address_values patch) True s)"


section \<open>Saving the database\<close>

text \<open>A line of the file, and \<open>p ? p : d\<close> for a string pointer.\<close>

definition line :: "string \<Rightarrow> string" where
  "line txt = txt @ [CHR 0x0A]"

definition or_default :: "string option \<Rightarrow> string \<Rightarrow> string" where
  "or_default p d = (case p of None \<Rightarrow> d | Some txt \<Rightarrow> txt)"

text \<open>\<open>if (p && strlen (p) > 0) fprintf (file, "label%s\n", p)\<close>.\<close>

definition optional_line :: "string \<Rightarrow> string option \<Rightarrow> string" where
  "optional_line label p =
     (case p of None \<Rightarrow> [] | Some txt \<Rightarrow> if txt \<noteq> [] then line (label @ txt) else [])"

text \<open>
  The fallback for a patch without preserved lines: \<open>hex_value\<close> is the concatenation of
  \<open>%02X\<close> of the bytes, built with \<open>strcat\<close> in \<open>char hex_value[256]\<close>, which 128 bytes
  or more overrun.
\<close>

definition hex_value :: "u8 list \<Rightarrow> string" where
  "hex_value bs = concat (map (\<lambda>b. hex_fixed 2 (unat b)) bs)"

definition canonical_line :: "XemuPatchAddressValue \<Rightarrow> string" where
  "canonical_line av =
     line (''      0x'' @ hex_fixed 8 (unat (address av)) @ '': 0x'' @ hex_value (value_data av))"

definition hex_value_overrun :: "XemuMemoryPatch \<Rightarrow> bool" where
  "hex_value_overrun patch =
     (address_value_lines patch = [] \<and>
      list_ex (\<lambda>av. 128 \<le> length (value_data av)) (address_values patch))"

definition bool_digit :: "bool \<Rightarrow> string" where
  "bool_digit b = (if b then ''1'' else ''0'')"

definition patch_text :: "XemuMemoryPatch \<Rightarrow> string" where
  "patch_text patch =
     line (''  Patch: '' @ or_default (name patch) ''Unnamed Patch'') @
     line (''    Author: '' @ or_default (author patch) ''Unknown'') @
     line (''    Category: '' @ or_default (category patch) ''Other'') @
     optional_line ''    Notes: '' (patch_notes patch) @
     line (''    Enabled: '' @ bool_digit (patch_enabled patch)) @
     line (''    Save Replaced Values: '' @ bool_digit (save_replaced_values patch)) @
     (if address_value_lines patch \<noteq> [] then
        line ''    Memory Addresses:'' @
        concat (map (\<lambda>l. line (''      '' @ l)) (address_value_lines patch))
      else if address_values patch \<noteq> [] then
        line ''    Memory Addresses:'' @ concat (map canonical_line (address_values patch))
      else []) @
     line []"

definition game_text :: "XemuGamePatches \<Rightarrow> string" where
  "game_text game =
     line ''Game Entry'' @
     line ''=========='' @
     line (''title: '' @ or_default (game_title game) ''Unknown Game'') @
     line (''title-id: '' @ or_default (title_id game) ''Unknown'') @
     line (''region: '' @ or_default (region game) ''NTSC'') @
     line (''version: '' @ or_default (version game) ''Unknown'') @
     optional_line ''alternate-title-id: '' (alternate_title_id game) @
     optional_line ''time-date: '' (time_date game) @
     optional_line ''disc-number: '' (disc_number game) @
     line [] @
     line ''Patches'' @
     line ''======='' @
     concat (map patch_text (patches game)) @
     line []"

definition database_text :: "XemuGamePatches list \<Rightarrow> string" where
  "database_text gs = concat (map game_text gs)"

text \<open>
  \<open>xemu_patches_save_database\<close>.  The file is written as a whole; when \<open>fclose\<close> fails
  the model keeps the text in the file.  \<open>g_save_in_progress\<close> is false again on every
  return.
\<close>

definition xemu_patches_save_database ::
  "env \<Rightarrow> 'a pstate_scheme \<Rightarrow> engine_error + bool \<times> 'a pstate_scheme" where
  "xemu_patches_save_database e s =
     (if \<not> g_patches_loaded s then Inr (False, s)
      else if g_save_in_progress s then Inr (False, s)
      else
        let db = g_patches_db s;
            path = (case file_path db of None \<Rightarrow> base_path e @ ''/xemu.db'' | Some p \<Rightarrow> p);
            s1 = s\<lparr>g_patches_db := db\<lparr>file_path := Some path\<rparr>\<rparr>
        in case games db of
             None \<Rightarrow> Inr (False, s1)
           | Some gs \<Rightarrow>
               if \<not> fopen_w_ok e then Inr (False, s1)
               else if list_ex (\<lambda>game. list_ex hex_value_overrun (patches game)) gs
               then Inl Stack_buffer_overflow
               else
                 let s2 = s1\<lparr>files := (files s1)(path \<mapsto> database_text gs)\<rparr>
                 in if \<not> fclose_ok e then Inr (False, s2)
                    else Inr (True,
                           s2\<lparr>g_patches_db := (g_patches_db s2)\<lparr>dirty := False\<rparr>\<rparr>))"

text \<open>\<open>xemu_patches_on_ui_database_changed\<close>.\<close>

definition xemu_patches_on_ui_database_changed ::
  "env \<Rightarrow> 'a pstate_scheme \<Rightarrow> engine_error + 'a pstate_scheme" where
  "xemu_patches_on_ui_database_changed e s =
     (let s1 = s\<lparr>g_patches_db := (g_patches_db s)\<lparr>dirty := True\<rparr>\<rparr>
      in if \<not> g_save_in_progress s1 then
           (case xemu_patches_save_database e s1 of
              Inl err \<Rightarrow> Inl err
            | Inr (True, s2) \<Rightarrow> Inr s2
            | Inr (False, s2) \<Rightarrow> Inr (s2\<lparr>g_patches_db := (g_patches_db s2)\<lparr>dirty := True\<rparr>\<rparr>))
         else Inr s1)"


section \<open>The mutators of the database\<close>

text \<open>
  \<open>xemu_patches_find_duplicate_game\<close>: the loop from the index \<open>i\<close> on, and the function.
  A \<open>NULL\<close> argument is \<open>None\<close>.
\<close>

fun find_duplicate_from :: "XemuGamePatches list \<Rightarrow> int \<Rightarrow> string \<Rightarrow> string \<Rightarrow> int" where
  "find_duplicate_from [] i tid ver = - 1"
| "find_duplicate_from (game # gs) i tid ver =
     (if title_id game = Some tid \<and> version game = Some ver then i
      else find_duplicate_from gs (i + 1) tid ver)"

definition xemu_patches_find_duplicate_game ::
  "'a pstate_scheme \<Rightarrow> string option \<Rightarrow> string option \<Rightarrow> int" where
  "xemu_patches_find_duplicate_game s tid ver =
     (case (tid, ver) of
        (Some t, Some v) \<Rightarrow>
          if \<not> g_patches_loaded s then - 1
          else find_duplicate_from (game_list (g_patches_db s)) 0 t v
      | _ \<Rightarrow> - 1)"

text \<open>
  \<open>xemu_patches_add_game\<close>: no check of its own; the game is appended, the flag is set and
  the database is saved at once.  The result of the save is not looked at.
\<close>

definition xemu_patches_add_game ::
  "env \<Rightarrow> 'a pstate_scheme \<Rightarrow> string option \<Rightarrow> string option \<Rightarrow> string option \<Rightarrow>
   string option \<Rightarrow> string option \<Rightarrow> string option \<Rightarrow> string option \<Rightarrow>
   engine_error + bool \<times> 'a pstate_scheme" where
  "xemu_patches_add_game e s title reg tid ver alt_tid td disc =
     (let db = g_patches_db s;
          new_game = \<lparr>game_title = title, region = reg, title_id = tid, version = ver,
                      alternate_title_id = alt_tid, time_date = td, disc_number = disc,
                      patches = [], game_enabled = True\<rparr>;
          s1 = s\<lparr>g_patches_db := db\<lparr>games := Some (game_list db @ [new_game]), dirty := True\<rparr>\<rparr>
      in case xemu_patches_save_database e s1 of
           Inl err \<Rightarrow> Inl err
         | Inr (saved, s2) \<Rightarrow> Inr (True, s2))"

text \<open>
  \<open>xemu_patches_remove_game\<close>: the array is closed up with \<open>memmove\<close>; the saved values
  are not touched.
\<close>

definition xemu_patches_remove_game :: "'a pstate_scheme \<Rightarrow> int \<Rightarrow> bool \<times> 'a pstate_scheme" where
  "xemu_patches_remove_game s game_index =
     (let db = g_patches_db s in
      if game_index < 0 \<or> game_index \<ge> game_count db then (False, s)
      else
        (True,
         s\<lparr>g_patches_db :=
             db\<lparr>games := Some (take (nat game_index) (game_list db) @
                                 drop (Suc (nat game_index)) (game_list db)),
                dirty := True\<rparr>\<rparr>))"

definition xemu_patches_update_game ::
  "'a pstate_scheme \<Rightarrow> int \<Rightarrow> string option \<Rightarrow> string option \<Rightarrow> string option \<Rightarrow>
   string option \<Rightarrow> string option \<Rightarrow> string option \<Rightarrow> string option \<Rightarrow>
   bool \<times> 'a pstate_scheme" where
  "xemu_patches_update_game s game_index title reg tid ver alt_tid td disc =
     (let db = g_patches_db s in
      if game_index < 0 \<or> game_index \<ge> game_count db then (False, s)
      else
        let game = game_list db ! nat game_index;
            game' = game\<lparr>game_title := title, region := reg, title_id := tid, version := ver,
                         alternate_title_id := alt_tid, time_date := td, disc_number := disc\<rparr>
        in (True,
            s\<lparr>g_patches_db :=
                db\<lparr>games := Some ((game_list db)[nat game_index := game']),
                   dirty := True\<rparr>\<rparr>))"

text \<open>
  The lines that \<open>strtok (text, "\n")\<close> gives: the pieces between line feeds that are not
  empty.
\<close>

fun strtok_lines_from :: "string \<Rightarrow> string \<Rightarrow> string list" where
  "strtok_lines_from cur [] = (if cur = [] then [] else [cur])"
| "strtok_lines_from cur (c # cs) =
     (if c = CHR 0x0A then (if cur = [] then [] else [cur]) @ strtok_lines_from [] cs
      else strtok_lines_from (cur @ [c]) cs)"

definition strtok_lines :: "string \<Rightarrow> string list" where
  "strtok_lines txt = strtok_lines_from [] txt"

text \<open>
  \<open>xemu_patches_add_patch\<close>.  The new patch is written into the slot \<open>patch_count\<close> of the
  enlarged array and \<open>patch_count\<close> is left as it was, so the patches of the game (the
  slots below \<open>patch_count\<close>) are the same as before.  \<open>parse\<close> stands for
  \<open>xemu_patches_parse_address_value_pairs\<close>, which returns true for every text.
\<close>

definition xemu_patches_add_patch ::
  "(string \<Rightarrow> XemuPatchAddressValue list) \<Rightarrow> 'a pstate_scheme \<Rightarrow> int \<Rightarrow> string option \<Rightarrow>
   string option \<Rightarrow> string option \<Rightarrow> string option \<Rightarrow> string option \<Rightarrow> bool \<Rightarrow>
   bool \<times> 'a pstate_scheme" where
  "xemu_patches_add_patch parse s game_index nm cat auth nts pairs_text save =
     (let db = g_patches_db s in
      if game_index < 0 \<or> game_index \<ge> game_count db then (False, s)
      else if nm = None \<or> cat = None \<or> auth = None \<or> pairs_text = None then (False, s)
      else (True, s\<lparr>g_patches_db := db\<lparr>dirty := True\<rparr>\<rparr>))"

text \<open>\<open>xemu_patches_update_patch\<close>; the enabled state of the patch is kept.\<close>

definition xemu_patches_update_patch ::
  "(string \<Rightarrow> XemuPatchAddressValue list) \<Rightarrow> 'a pstate_scheme \<Rightarrow> int \<Rightarrow> int \<Rightarrow>
   string option \<Rightarrow> string option \<Rightarrow> string option \<Rightarrow> string option \<Rightarrow> string option \<Rightarrow>
   bool \<Rightarrow> bool \<times> 'a pstate_scheme" where
  "xemu_patches_update_patch parse s game_index patch_index nm cat auth nts pairs_text save =
     (let db = g_patches_db s in
      if game_index < 0 \<or> game_index \<ge> game_count db then (False, s)
      else
        let game = game_list db ! nat game_index in
        if patch_index < 0 \<or> patch_index \<ge> patch_count game then (False, s)
        else if nm = None \<or> cat = None \<or> auth = None \<or> pairs_text = None then (False, s)
        else
          let patch = patches game ! nat patch_index;
              patch' = patch\<lparr>address_values := parse (the pairs_text),
                            name := nm, category := cat, author := auth,
                            patch_notes := Some (or_default nts []),
                            address_value_lines := strtok_lines (the pairs_text),
                            save_replaced_values := save\<rparr>;
              game' = game\<lparr>patches := (patches game)[nat patch_index := patch']\<rparr>
          in (True,
              s\<lparr>g_patches_db :=
                  db\<lparr>games := Some ((game_list db)[nat game_index := game']),
                     dirty := True\<rparr>\<rparr>))"

text \<open>
  \<open>xemu_patches_remove_patch\<close>: the saved values of this game and patch index are
  removed; the memory is not restored.
\<close>

definition xemu_patches_remove_patch ::
  "'a pstate_scheme \<Rightarrow> int \<Rightarrow> int \<Rightarrow> bool \<times> 'a pstate_scheme" where
  "xemu_patches_remove_patch s game_index patch_index =
     (let db = g_patches_db s in
      if game_index < 0 \<or> game_index \<ge> game_count db then (False, s)
      else
        let game = game_list db ! nat game_index in
        if patch_index < 0 \<or> patch_index \<ge> patch_count game then (False, s)
        else
          let game' = game\<lparr>patches := take (nat patch_index) (patches game) @
                                        drop (Suc (nat patch_index)) (patches game)\<rparr>
          in (True,
              s\<lparr>g_patches_db :=
                  db\<lparr>games := Some ((game_list db)[nat game_index := game']),
                     dirty := True\<rparr>,
                g_saved_values :=
                  clear_saved_loop
                    (\<lambda>en. sv_game_index en = game_index \<and> sv_patch_index en = patch_index)
                    0 (g_saved_values s)\<rparr>))"

text \<open>\<open>is_game_currently_running\<close>.\<close>

definition is_game_currently_running :: "env \<Rightarrow> bool" where
  "is_game_currently_running e = (system_memory e \<and> phys_readable e)"

text \<open>
  The end of \<open>xemu_patches_set_patch_enabled\<close>: the flag is set and the database saved
  at once; a notification follows a successful save.
\<close>

definition save_after_toggle ::
  "env \<Rightarrow> string \<Rightarrow> bool \<Rightarrow> 'a pstate_scheme \<Rightarrow> engine_error + bool \<times> 'a pstate_scheme" where
  "save_after_toggle e patch_name enabled s =
     (case xemu_patches_save_database e
             (s\<lparr>g_patches_db := (g_patches_db s)\<lparr>dirty := True\<rparr>\<rparr>) of
        Inl err \<Rightarrow> Inl err
      | Inr (True, s1) \<Rightarrow>
          Inr (True,
               xemu_queue_notification
                 (snprintf 256 (''Patch '' @ [CHR 0x27] @ patch_name @ [CHR 0x27] @ '' '' @
                    (if enabled then ''enabled'' else ''disabled''))) s1)
      | Inr (False, s1) \<Rightarrow> Inr (True, s1))"

definition xemu_patches_set_patch_enabled ::
  "env \<Rightarrow> 'a pstate_scheme \<Rightarrow> int \<Rightarrow> int \<Rightarrow> bool \<Rightarrow> engine_error + bool \<times> 'a pstate_scheme" where
  "xemu_patches_set_patch_enabled e s game_index patch_index enabled =
     (let db = g_patches_db s in
      if game_index < 0 \<or> game_index \<ge> game_count db then Inr (False, s)
      else
        let game = game_list db ! nat game_index in
        if patch_index < 0 \<or> patch_index \<ge> patch_count game then Inr (False, s)
        else
          let old = patches game ! nat patch_index;
              old_enabled = patch_enabled old;
              patch_name = or_default (name old) ''Unnamed Patch'';
              patch = old\<lparr>patch_enabled := enabled\<rparr>;
              game' = game\<lparr>patches := (patches game)[nat patch_index := patch]\<rparr>;
              s1 = s\<lparr>g_patches_db := db\<lparr>games := Some ((game_list db)[nat game_index := game'])\<rparr>\<rparr>
          in
            if enabled \<and> \<not> old_enabled then
              (if \<not> is_game_currently_running e then
                 Inr (True,
                      xemu_queue_notification
                        (snprintf 256 (''No game running - patch '' @ [CHR 0x27] @ patch_name @
                           [CHR 0x27] @ '' will apply on game load'')) s1)
               else if address_values patch \<noteq> [] then
                 (case xemu_patches_apply_patch_with_save_restore e s1 patch game_index
                         patch_index of
                    Inl err \<Rightarrow> Inl err
                  | Inr (True, s2) \<Rightarrow>
                      save_after_toggle e patch_name enabled
                        (xemu_queue_notification
                           (snprintf 512 (''Applied patch '' @ [CHR 0x22] @ patch_name @
                              [CHR 0x22])) s2)
                  | Inr (False, s2) \<Rightarrow>
                      save_after_toggle e patch_name enabled
                        (xemu_queue_error_message
                           (snprintf 256 (''Failed to apply patch '' @ [CHR 0x27] @ patch_name @
                              [CHR 0x27] @ '' - Check memory access'')) s2))
               else save_after_toggle e patch_name enabled s1)
            else if \<not> enabled \<and> old_enabled then
              (case xemu_patches_remove_patch_with_restore s1 game_index patch_index of
                 Inl err \<Rightarrow> Inl err
               | Inr (True, s2) \<Rightarrow>
                   save_after_toggle e patch_name enabled
                     (xemu_queue_notification
                        (snprintf 256 (''Removed patch '' @ [CHR 0x22] @ patch_name @
                           [CHR 0x22])) s2)
               | Inr (False, s2) \<Rightarrow>
                   save_after_toggle e patch_name enabled
                     (xemu_queue_error_message
                        (snprintf 256 (''Failed to properly remove patch '' @ [CHR 0x27] @
                           patch_name @ [CHR 0x27])) s2))
            else save_after_toggle e patch_name enabled s1)"

text \<open>
  The click on \<open>Add Game\<close> in \<open>DrawAddGameDialog\<close> (main-menu.cc) with the texts of the
  fields of the dialog, which are character buffers and never \<open>NULL\<close>.  The fields and the
  flags of the dialog itself are not part of the engine state.
\<close>

definition duplicate_message :: "XemuGamePatches \<Rightarrow> string" where
  "duplicate_message dup =
     snprintf 256
       (''Exact duplicate found: '' @ [CHR 0x27] @ or_default (game_title dup) ''Unknown'' @
        [CHR 0x27] @ '' (Title ID: '' @ or_default (title_id dup) ''NULL'' @
        '', Version: '' @ or_default (version dup) ''NULL'' @ '')'' @ [CHR 0x0A] @
        ''Same Title ID AND Version already exist in database'')"

definition add_game_clicked ::
  "env \<Rightarrow> 'a pstate_scheme \<Rightarrow> string \<Rightarrow> string \<Rightarrow> string \<Rightarrow> string \<Rightarrow> string \<Rightarrow> string \<Rightarrow>
   string \<Rightarrow> engine_error + 'a pstate_scheme" where
  "add_game_clicked e s title reg tid ver alt_tid td disc =
     (if title \<noteq> [] \<and> tid \<noteq> [] then
        let existing_game = xemu_patches_find_duplicate_game s (Some tid) (Some ver) in
        if existing_game \<ge> 0 then
          Inr (xemu_queue_error_message
                 (duplicate_message (game_list (g_patches_db s) ! nat existing_game)) s)
        else
          (case xemu_patches_add_game e s (Some title) (Some reg) (Some tid) (Some ver)
                  (Some alt_tid) (Some td) (Some disc) of
             Inl err \<Rightarrow> Inl err
           | Inr (True, s1) \<Rightarrow>
               (case xemu_patches_on_ui_database_changed e s1 of
                  Inl err \<Rightarrow> Inl err
                | Inr s2 \<Rightarrow> Inr (xemu_queue_notification ''Added game to patches database'' s2))
           | Inr (False, s1) \<Rightarrow> Inr (xemu_queue_error_message ''Failed to add game'' s1))
      else Inr (xemu_queue_error_message ''Game Title and Title ID are required'' s))"


section \<open>Properties of the applier\<close>

text \<open>
  The words of the specification for a patch that saves the values it replaces: for each
  pair in turn, the original bytes at the address are read; when the read succeeds they
  are recorded; then the new bytes are written, through \<open>apply_single_patch_bytes\<close>,
  whether the read succeeded or not.  The result lists, pair by pair, whether the write
  succeeded.
\<close>

fun save_then_write ::
  "int \<Rightarrow> int \<Rightarrow> XemuPatchAddressValue list \<Rightarrow> 'a pstate_scheme \<Rightarrow> bool list \<times> 'a pstate_scheme"
  where
  "save_then_write gi pi [] s = ([], s)"
| "save_then_write gi pi (av # avs) s =
     (case read_direct_virtual_memory s (ucast (address av)) (length (value_data av)) of
        (original, s1) \<Rightarrow>
          (case apply_single_patch_bytes
                  (case original of
                     None \<Rightarrow> s1
                   | Some bytes \<Rightarrow>
                       s1\<lparr>g_saved_values :=
                            snd (add_saved_value (g_saved_values s1) gi pi (address av) bytes)\<rparr>)
                  (address av) (value_data av) of
             (written, s2) \<Rightarrow>
               (case save_then_write gi pi avs s2 of
                  (rest, s3) \<Rightarrow> (written # rest, s3))))"

text \<open>All the writes succeeded.\<close>

fun all_written :: "bool list \<Rightarrow> bool" where
  "all_written [] = True"
| "all_written (w # ws) = (w \<and> all_written ws)"

text \<open>The same for a patch that does not save: the pairs are written in turn.\<close>

fun write_in_turn ::
  "XemuPatchAddressValue list \<Rightarrow> 'a pstate_scheme \<Rightarrow> bool list \<times> 'a pstate_scheme" where
  "write_in_turn [] s = ([], s)"
| "write_in_turn (av # avs) s =
     (case apply_single_patch_bytes s (address av) (value_data av) of
        (written, s1) \<Rightarrow>
          (case write_in_turn avs s1 of (rest, s2) \<Rightarrow> (written # rest, s2)))"

text \<open>
  What the function does to a guest that stands still, with CPU 0 and reset monitoring
  off, for pairs of 1 to 16 bytes: a pair whose addresses are mapped is read, recorded,
  read again (the test read) and written; for a pair whose addresses are not all mapped
  the two reads fail, nothing is recorded and nothing is written.
\<close>

fun quiet_apply ::
  "int \<Rightarrow> int \<Rightarrow> XemuPatchAddressValue list \<Rightarrow> 'a pstate_scheme \<Rightarrow> bool list \<times> 'a pstate_scheme"
  where
  "quiet_apply gi pi [] s = ([], s)"
| "quiet_apply gi pi (av # avs) s =
     (let g = guest_mem s; a = address av; v = value_data av;
          s1 = (if mapped g a (length v) then
                  s\<lparr>guest_mem :=
                      g\<lparr>cells := poke (cells g) a v,
                        accesses := accesses g @
                          [Read_access a (length v), Read_access a (length v),
                           Write_access a v]\<rparr>,
                    g_saved_values :=
                      snd (add_saved_value (g_saved_values s) gi pi a (peek g a (length v)))\<rparr>
                else
                  s\<lparr>guest_mem :=
                      g\<lparr>accesses := accesses g @
                          [Read_access a (length v), Read_access a (length v)]\<rparr>\<rparr>)
      in case quiet_apply gi pi avs s1 of
           (rest, s2) \<Rightarrow> (mapped g a (length v) # rest, s2))"

text \<open>The guest of a state stands still, has CPU 0, and reset monitoring is off.\<close>

definition quiet :: "'a pstate_scheme \<Rightarrow> bool" where
  "quiet s = (guest_runs (guest_mem s) = [] \<and> cpu_present (guest_mem s) \<and>
              \<not> g_reset_monitoring_active s)"

lemma ucast_down_up [simp]: "(ucast (ucast (a :: u32) :: u64) :: u32) = a"
  by (rule ucast_up_ucast_id) (simp add: is_up)

lemma valid_ucast32 [simp]: "xemu_virtual_memory_is_valid_address (ucast (a :: u32))"
proof -
  have "unat a < 2 ^ 32"
    using unsigned_less [of a] by simp
  then have "take_bit 64 (unat a) = unat a"
    by (simp only: take_bit_nat_eq_self_iff) simp
  then have "unat (ucast a :: u64) = unat a"
    by (simp add: unsigned_ucast_eq)
  with \<open>unat a < 2 ^ 32\<close> have "unat (ucast a :: u64) \<le> unat (0xFFFFFFFF :: u64)"
    by simp
  then show ?thesis
    by (simp only: valid_address_le word_le_nat_alt)
qed

lemma addr_range_take: "k \<le> n \<Longrightarrow> addr_range a k = take k (addr_range a n)"
  by (simp add: addr_range_def take_map)

lemma mapped_prefix: "mapped g a n \<Longrightarrow> k \<le> n \<Longrightarrow> mapped g a k"
  by (auto simp: mapped_def list_all_iff addr_range_take [of k n] dest: in_set_takeD)

lemma poke_defined:
  "poke m a bs x \<noteq> None \<longleftrightarrow> x \<in> set (addr_range a (length bs)) \<or> m x \<noteq> None"
  by (induction bs arbitrary: m a) auto

lemma mapped_after_poke:
  assumes "mapped g a (length v)" and "cells g' = poke (cells g) a v"
  shows "mapped g' b n = mapped g b n"
proof -
  have "cells g' x \<noteq> None \<longleftrightarrow> cells g x \<noteq> None" for x
    using assms poke_defined [of "cells g" a v x]
    by (auto simp: mapped_def list_all_iff)
  then show ?thesis
    by (simp add: mapped_def list_all_iff)
qed

lemma mapped_cong: "cells g' = cells g \<Longrightarrow> mapped g' b n = mapped g b n"
  by (simp add: mapped_def)

lemma peek_cong: "cells g' = cells g \<Longrightarrow> peek g' b n = peek g b n"
  by (simp add: peek_def)

text \<open>The accesses of the applier on a guest that stands still.\<close>

lemma quiet_read:
  assumes "guest_runs (guest_mem s) = []" and "cpu_present (guest_mem s)"
  shows "read_direct_virtual_memory s (ucast (a :: u32)) n =
     (if mapped (guest_mem s) a n then Some (peek (guest_mem s) a n) else None,
      s\<lparr>guest_mem := (guest_mem s)\<lparr>accesses := accesses (guest_mem s) @ [Read_access a n]\<rparr>\<rparr>)"
proof (cases "mapped (guest_mem s) a n")
  case True
  with assms show ?thesis
    by (simp add: read_direct_virtual_memory_def vm_read_mapped Let_def)
next
  case False
  with assms show ?thesis
    by (simp add: read_direct_virtual_memory_def vm_read_unmapped Let_def)
qed

lemma quiet_single:
  assumes "guest_runs (guest_mem s) = []" and "cpu_present (guest_mem s)"
    and "\<not> g_reset_monitoring_active s" and "v \<noteq> []" and "length v \<le> 16"
  shows "apply_single_patch_bytes s a v =
     (if mapped (guest_mem s) a (length v) then
        (True,
         s\<lparr>guest_mem := (guest_mem s)
             \<lparr>cells := poke (cells (guest_mem s)) a v,
              accesses := accesses (guest_mem s) @
                [Read_access a (length v), Write_access a v]\<rparr>\<rparr>)
      else
        (False,
         s\<lparr>guest_mem := (guest_mem s)
             \<lparr>accesses := accesses (guest_mem s) @ [Read_access a (length v)]\<rparr>\<rparr>))"
proof -
  from assms(5) have m: "min (length v) 16 = length v" by simp
  show ?thesis
  proof (cases "mapped (guest_mem s) a (length v)")
    case True
    then have "mapped ((guest_mem s)\<lparr>accesses := accesses (guest_mem s) @
        [Read_access a (length v)]\<rparr>) a (length v)"
      by (simp add: mapped_def)
    with True assms show ?thesis
      by (simp add: apply_single_patch_bytes_def m vm_read_mapped vm_write_mapped
          write_direct_virtual_memory_def Let_def)
  next
    case False
    with assms show ?thesis
      by (simp add: apply_single_patch_bytes_def m vm_read_unmapped Let_def)
  qed
qed

text \<open>A guest with CPU 0 and no mapped address, which stands still.\<close>

definition unmapped_guest :: guest where
  "unmapped_guest = \<lparr>cpu_present = True, cells = (\<lambda>a. None), accesses = [], guest_runs = []\<rparr>"

text \<open>
  A guest with CPU 0 and no mapped address that maps all its memory, filled with zero,
  between the first access to come and the second.
\<close>

definition waking_guest :: guest where
  "waking_guest =
     \<lparr>cpu_present = True, cells = (\<lambda>a. None), accesses = [],
      guest_runs = [\<lambda>m. m, \<lambda>m a. Some 0]\<rparr>"

text \<open>The engine before initialisation, on the guest \<open>g\<close>.\<close>

definition blank_state :: "guest \<Rightarrow> pstate" where
  "blank_state g =
     \<lparr>g_patches_db = \<lparr>games = None, file_path = None, dirty = False\<rparr>,
      g_patches_loaded = False, g_patches_initialized = False, g_save_in_progress = False,
      g_saved_values = [], g_reset_monitoring_active = False,
      g_reset_monitored_addresses = [], guest_mem = g, notifications = [],
      error_messages = [], files = (\<lambda>p. None)\<rparr>"

definition running_env :: env where
  "running_env =
     \<lparr>time_now = 0, sdl_ticks = 0, system_memory = True, phys_readable = True,
      xbe_cert = None, fopen_w_ok = True, fclose_ok = True, base_path = ''/xemu/''\<rparr>"

definition health_pair :: XemuPatchAddressValue where
  "health_pair = \<lparr>address = 0x123456, value_data = [0xDE, 0xAD, 0xBE, 0xEF]\<rparr>"

definition ammo_pair :: XemuPatchAddressValue where
  "ammo_pair = \<lparr>address = 0x200000, value_data = [0x90]\<rparr>"

definition health_patch :: XemuMemoryPatch where
  "health_patch =
     \<lparr>address_values = [health_pair], patch_enabled = True,
      name = Some ''Infinite Health'', category = Some ''Cheat'',
      author = Some ''Unknown'', patch_notes = None,
      address_value_lines = [], save_replaced_values = True\<rparr>"

definition cheats_patch :: XemuMemoryPatch where
  "cheats_patch = health_patch\<lparr>address_values := [health_pair, ammo_pair]\<rparr>"

lemma save_then_write_Cons:
  "save_then_write gi pi (av # avs) s =
     (let rd = read_direct_virtual_memory s (ucast (address av)) (length (value_data av));
          wr = apply_single_patch_bytes
                 (case fst rd of
                    None \<Rightarrow> snd rd
                  | Some bytes \<Rightarrow>
                      (snd rd)\<lparr>g_saved_values :=
                        snd (add_saved_value (g_saved_values (snd rd)) gi pi (address av) bytes)\<rparr>)
                 (address av) (value_data av)
      in (fst wr # fst (save_then_write gi pi avs (snd wr)),
          snd (save_then_write gi pi avs (snd wr))))"
proof -
  obtain c s1 where rd: "read_direct_virtual_memory s (ucast (address av))
      (length (value_data av)) = (c, s1)"
    by (cases "read_direct_virtual_memory s (ucast (address av)) (length (value_data av))")
  obtain w s2 where wr: "apply_single_patch_bytes
      (case c of None \<Rightarrow> s1
       | Some bytes \<Rightarrow> s1\<lparr>g_saved_values :=
           snd (add_saved_value (g_saved_values s1) gi pi (address av) bytes)\<rparr>)
      (address av) (value_data av) = (w, s2)"
    by (cases "apply_single_patch_bytes
      (case c of None \<Rightarrow> s1
       | Some bytes \<Rightarrow> s1\<lparr>g_saved_values :=
           snd (add_saved_value (g_saved_values s1) gi pi (address av) bytes)\<rparr>)
      (address av) (value_data av)")
  obtain rest s3 where rs: "save_then_write gi pi avs s2 = (rest, s3)"
    by (cases "save_then_write gi pi avs s2")
  from wr rs show ?thesis
    by (cases c) (simp_all add: rd Let_def)
qed

lemma write_in_turn_Cons:
  "write_in_turn (av # avs) s =
     (let wr = apply_single_patch_bytes s (address av) (value_data av)
      in (fst wr # fst (write_in_turn avs (snd wr)), snd (write_in_turn avs (snd wr))))"
  by (simp add: Let_def split: prod.splits)

lemma quiet_apply_Cons:
  "quiet_apply gi pi (av # avs) s =
     (let g = guest_mem s; a = address av; v = value_data av;
          s1 = (if mapped g a (length v) then
                  s\<lparr>guest_mem :=
                      g\<lparr>cells := poke (cells g) a v,
                        accesses := accesses g @
                          [Read_access a (length v), Read_access a (length v),
                           Write_access a v]\<rparr>,
                    g_saved_values :=
                      snd (add_saved_value (g_saved_values s) gi pi a (peek g a (length v)))\<rparr>
                else
                  s\<lparr>guest_mem :=
                      g\<lparr>accesses := accesses g @
                          [Read_access a (length v), Read_access a (length v)]\<rparr>\<rparr>)
      in (mapped g a (length v) # fst (quiet_apply gi pi avs s1),
          snd (quiet_apply gi pi avs s1)))"
  by (simp add: Let_def split: prod.splits)

lemma apply_pair_save_step:
  assumes "apply_pair_with_save True gi pi av s = Inr (w, s1)"
  shows "w = fst (apply_single_patch_bytes
                 (case fst (read_direct_virtual_memory s (ucast (address av))
                              (length (value_data av))) of
                    None \<Rightarrow> snd (read_direct_virtual_memory s (ucast (address av))
                              (length (value_data av)))
                  | Some bytes \<Rightarrow>
                      (snd (read_direct_virtual_memory s (ucast (address av))
                              (length (value_data av))))
                      \<lparr>g_saved_values :=
                        snd (add_saved_value
                          (g_saved_values (snd (read_direct_virtual_memory s (ucast (address av))
                              (length (value_data av))))) gi pi (address av) bytes)\<rparr>)
                 (address av) (value_data av))"
    and "s1 = snd (apply_single_patch_bytes
                 (case fst (read_direct_virtual_memory s (ucast (address av))
                              (length (value_data av))) of
                    None \<Rightarrow> snd (read_direct_virtual_memory s (ucast (address av))
                              (length (value_data av)))
                  | Some bytes \<Rightarrow>
                      (snd (read_direct_virtual_memory s (ucast (address av))
                              (length (value_data av))))
                      \<lparr>g_saved_values :=
                        snd (add_saved_value
                          (g_saved_values (snd (read_direct_virtual_memory s (ucast (address av))
                              (length (value_data av))))) gi pi (address av) bytes)\<rparr>)
                 (address av) (value_data av))"
  using assms
  by (auto simp: apply_pair_with_save_def split: prod.splits option.splits if_splits)

lemma apply_pair_save_total:
  assumes "length (value_data av) \<le> 16"
  shows "\<exists>w s1. apply_pair_with_save True gi pi av s = Inr (w, s1)"
  using assms
  by (auto simp: apply_pair_with_save_def split: prod.splits option.splits)

lemma apply_pairs_save_refines:
  "apply_pairs_with_save True gi pi avs ok s = Inr (r, s') \<Longrightarrow>
   r = (ok \<and> all_written (fst (save_then_write gi pi avs s))) \<and>
   s' = snd (save_then_write gi pi avs s)"
proof (induction avs arbitrary: ok s)
  case Nil
  then show ?case by simp
next
  case (Cons av avs)
  from Cons.prems obtain w s1 where
    one: "apply_pair_with_save True gi pi av s = Inr (w, s1)"
    and rest: "apply_pairs_with_save True gi pi avs (ok \<and> w) s1 = Inr (r, s')"
    by (auto split: sum.splits)
  note st = apply_pair_save_step [OF one]
  from Cons.IH [OF rest] have "r = ((ok \<and> w) \<and> all_written (fst (save_then_write gi pi avs s1)))"
    and "s' = snd (save_then_write gi pi avs s1)"
    by simp_all
  then show ?case
    unfolding save_then_write_Cons Let_def st [symmetric] by auto
qed

lemma apply_pairs_save_total:
  "list_all (\<lambda>av. length (value_data av) \<le> 16) avs \<Longrightarrow>
   \<exists>r s'. apply_pairs_with_save True gi pi avs ok s = Inr (r, s')"
proof (induction avs arbitrary: ok s)
  case Nil
  then show ?case by simp
next
  case (Cons av avs)
  from Cons.prems have "length (value_data av) \<le> 16" by simp
  from apply_pair_save_total [OF this, of gi pi s] obtain w s1 where
    one: "apply_pair_with_save True gi pi av s = Inr (w, s1)" by blast
  from Cons.prems have "list_all (\<lambda>av. length (value_data av) \<le> 16) avs" by simp
  from Cons.IH [OF this, of "ok \<and> w" s1] one show ?case by simp
qed

lemma apply_pairs_nosave:
  "apply_pairs_with_save False gi pi avs ok s =
     Inr (ok \<and> all_written (fst (write_in_turn avs s)), snd (write_in_turn avs s))"
proof (induction avs arbitrary: ok s)
  case Nil
  then show ?case by simp
next
  case (Cons av avs)
  obtain w s1 where ap: "apply_single_patch_bytes s (address av) (value_data av) = (w, s1)"
    by (cases "apply_single_patch_bytes s (address av) (value_data av)")
  then have one: "apply_pair_with_save False gi pi av s = Inr (w, s1)"
    by (simp add: apply_pair_with_save_def)
  from Cons.IH [of "ok \<and> w" s1] one ap show ?case
    by (auto simp: write_in_turn_Cons Let_def simp del: write_in_turn.simps)
qed

lemma quiet_save_then_write:
  "quiet s \<Longrightarrow>
   list_all (\<lambda>av. value_data av \<noteq> [] \<and> length (value_data av) \<le> 16) avs \<Longrightarrow>
   save_then_write gi pi avs s = quiet_apply gi pi avs s"
proof (induction avs arbitrary: s)
  case Nil
  then show ?case by simp
next
  case (Cons av avs)
  let ?g = "guest_mem s" and ?a = "address av" and ?v = "value_data av"
  from Cons.prems have still: "guest_runs ?g = []" and cpu: "cpu_present ?g"
    and mon: "\<not> g_reset_monitoring_active s"
    by (simp_all add: quiet_def)
  from Cons.prems have v: "?v \<noteq> []" and len: "length ?v \<le> 16"
    and rest: "list_all (\<lambda>av. value_data av \<noteq> [] \<and> length (value_data av) \<le> 16) avs"
    by simp_all
  let ?g1 = "?g\<lparr>accesses := accesses ?g @ [Read_access ?a (length ?v)]\<rparr>"
  let ?t = "if mapped ?g ?a (length ?v)
            then s\<lparr>guest_mem := ?g1,
                   g_saved_values := snd (add_saved_value (g_saved_values s) gi pi ?a
                                            (peek ?g ?a (length ?v)))\<rparr>
            else s\<lparr>guest_mem := ?g1\<rparr>"
  have rd: "read_direct_virtual_memory s (ucast ?a) (length ?v) =
      (if mapped ?g ?a (length ?v) then Some (peek ?g ?a (length ?v)) else None,
       s\<lparr>guest_mem := ?g1\<rparr>)"
    by (rule quiet_read [OF still cpu])
  have t: "(case fst (read_direct_virtual_memory s (ucast ?a) (length ?v)) of
              None \<Rightarrow> snd (read_direct_virtual_memory s (ucast ?a) (length ?v))
            | Some bytes \<Rightarrow>
                (snd (read_direct_virtual_memory s (ucast ?a) (length ?v)))
                \<lparr>g_saved_values :=
                   snd (add_saved_value
                     (g_saved_values (snd (read_direct_virtual_memory s (ucast ?a) (length ?v))))
                     gi pi ?a bytes)\<rparr>) = ?t"
    unfolding rd by simp
  have tq: "guest_runs (guest_mem ?t) = []" "cpu_present (guest_mem ?t)"
    "\<not> g_reset_monitoring_active ?t"
    using still cpu mon by simp_all
  have mp: "mapped (guest_mem ?t) ?a (length ?v) = mapped ?g ?a (length ?v)"
    by (simp add: mapped_def)
  let ?s1 = "if mapped ?g ?a (length ?v) then
                  s\<lparr>guest_mem :=
                      ?g\<lparr>cells := poke (cells ?g) ?a ?v,
                        accesses := accesses ?g @
                          [Read_access ?a (length ?v), Read_access ?a (length ?v),
                           Write_access ?a ?v]\<rparr>,
                    g_saved_values :=
                      snd (add_saved_value (g_saved_values s) gi pi ?a (peek ?g ?a (length ?v)))\<rparr>
                else
                  s\<lparr>guest_mem :=
                      ?g\<lparr>accesses := accesses ?g @
                          [Read_access ?a (length ?v), Read_access ?a (length ?v)]\<rparr>\<rparr>"
  have wr: "apply_single_patch_bytes ?t ?a ?v = (mapped ?g ?a (length ?v), ?s1)"
    unfolding quiet_single [OF tq v len] mp
    by (cases "mapped ?g ?a (length ?v)") simp_all
  have q1: "quiet ?s1"
    using still cpu mon by (simp add: quiet_def)
  show ?case
    unfolding save_then_write_Cons quiet_apply_Cons Let_def t wr fst_conv snd_conv
      Cons.IH [OF q1 rest]
    by (rule refl)
qed

text \<open>
  Claim C3, save before write in \<open>xemu_patches_apply_patch_with_save_restore\<close>.  When
  system memory is there and the patch saves the values it replaces, the function does,
  pair after pair, what \<open>save_then_write\<close> says: it reads the original bytes and records
  them before it writes the new bytes, skips only the recording when the read fails, and
  returns true exactly when every write succeeded; it does return when no pair has more
  than 16 bytes.  On a guest that stands still this is \<open>quiet_apply\<close>: for every pair the
  list of accesses grows by the read of the original bytes, the test read and the write, in
  this order, and the bytes recorded are those that the guest held before the write.  A
  patch that does not save has its pairs written in turn, and without system memory the
  function returns false and does nothing.
\<close>

theorem save_before_write:
  fixes s :: "'a pstate_scheme"
  shows
    "(save_replaced_values patch \<and> system_memory e \<longrightarrow>
        (\<forall>r s'. xemu_patches_apply_patch_with_save_restore e s patch gi pi = Inr (r, s') \<longrightarrow>
           r = all_written (fst (save_then_write gi pi (address_values patch) s)) \<and>
           s' = snd (save_then_write gi pi (address_values patch) s))) \<and>
     (save_replaced_values patch \<and> system_memory e \<and>
      list_all (\<lambda>av. length (value_data av) \<le> 16) (address_values patch) \<longrightarrow>
        xemu_patches_apply_patch_with_save_restore e s patch gi pi =
          Inr (all_written (fst (save_then_write gi pi (address_values patch) s)),
               snd (save_then_write gi pi (address_values patch) s))) \<and>
     (save_replaced_values patch \<and> system_memory e \<and> quiet s \<and>
      list_all (\<lambda>av. value_data av \<noteq> [] \<and> length (value_data av) \<le> 16)
        (address_values patch) \<longrightarrow>
        xemu_patches_apply_patch_with_save_restore e s patch gi pi =
          Inr (all_written (fst (quiet_apply gi pi (address_values patch) s)),
               snd (quiet_apply gi pi (address_values patch) s))) \<and>
     (\<not> save_replaced_values patch \<and> system_memory e \<longrightarrow>
        xemu_patches_apply_patch_with_save_restore e s patch gi pi =
          Inr (all_written (fst (write_in_turn (address_values patch) s)),
               snd (write_in_turn (address_values patch) s))) \<and>
     (\<not> system_memory e \<longrightarrow>
        xemu_patches_apply_patch_with_save_restore e s patch gi pi = Inr (False, s))"
proof -
  let ?avs = "address_values patch"
  have c1: "save_replaced_values patch \<and> system_memory e \<longrightarrow>
        (\<forall>r s'. xemu_patches_apply_patch_with_save_restore e s patch gi pi = Inr (r, s') \<longrightarrow>
           r = all_written (fst (save_then_write gi pi ?avs s)) \<and>
           s' = snd (save_then_write gi pi ?avs s))"
    using apply_pairs_save_refines [of gi pi ?avs True s]
    by (simp add: xemu_patches_apply_patch_with_save_restore_def)
  have c2: "save_replaced_values patch \<and> system_memory e \<and>
      list_all (\<lambda>av. length (value_data av) \<le> 16) ?avs \<longrightarrow>
        xemu_patches_apply_patch_with_save_restore e s patch gi pi =
          Inr (all_written (fst (save_then_write gi pi ?avs s)),
               snd (save_then_write gi pi ?avs s))"
  proof (intro impI)
    assume a: "save_replaced_values patch \<and> system_memory e \<and>
      list_all (\<lambda>av. length (value_data av) \<le> 16) ?avs"
    then have "list_all (\<lambda>av. length (value_data av) \<le> 16) ?avs" by simp
    from apply_pairs_save_total [OF this, of gi pi True s] obtain r s' where
      eq: "apply_pairs_with_save True gi pi ?avs True s = Inr (r, s')" by blast
    from apply_pairs_save_refines [OF eq] eq a
    show "xemu_patches_apply_patch_with_save_restore e s patch gi pi =
          Inr (all_written (fst (save_then_write gi pi ?avs s)),
               snd (save_then_write gi pi ?avs s))"
      by (simp add: xemu_patches_apply_patch_with_save_restore_def)
  qed
  have c3: "save_replaced_values patch \<and> system_memory e \<and> quiet s \<and>
      list_all (\<lambda>av. value_data av \<noteq> [] \<and> length (value_data av) \<le> 16) ?avs \<longrightarrow>
        xemu_patches_apply_patch_with_save_restore e s patch gi pi =
          Inr (all_written (fst (quiet_apply gi pi ?avs s)),
               snd (quiet_apply gi pi ?avs s))"
  proof (intro impI)
    assume a: "save_replaced_values patch \<and> system_memory e \<and> quiet s \<and>
      list_all (\<lambda>av. value_data av \<noteq> [] \<and> length (value_data av) \<le> 16) ?avs"
    then have q: "quiet s"
      and l: "list_all (\<lambda>av. value_data av \<noteq> [] \<and> length (value_data av) \<le> 16) ?avs"
      by simp_all
    from l have "list_all (\<lambda>av. length (value_data av) \<le> 16) ?avs"
      by (simp add: list_all_iff)
    with c2 a have "xemu_patches_apply_patch_with_save_restore e s patch gi pi =
          Inr (all_written (fst (save_then_write gi pi ?avs s)),
               snd (save_then_write gi pi ?avs s))"
      by simp
    then show "xemu_patches_apply_patch_with_save_restore e s patch gi pi =
          Inr (all_written (fst (quiet_apply gi pi ?avs s)),
               snd (quiet_apply gi pi ?avs s))"
      by (simp only: quiet_save_then_write [OF q l])
  qed
  have c4: "\<not> save_replaced_values patch \<and> system_memory e \<longrightarrow>
        xemu_patches_apply_patch_with_save_restore e s patch gi pi =
          Inr (all_written (fst (write_in_turn ?avs s)), snd (write_in_turn ?avs s))"
    by (simp add: xemu_patches_apply_patch_with_save_restore_def apply_pairs_nosave)
  have c5: "\<not> system_memory e \<longrightarrow>
        xemu_patches_apply_patch_with_save_restore e s patch gi pi = Inr (False, s)"
    by (simp add: xemu_patches_apply_patch_with_save_restore_def)
  from c1 c2 c3 c4 c5 show ?thesis
    by (intro conjI)
qed

theorem save_before_write_witness:
  "xemu_patches_apply_patch_with_save_restore running_env (blank_state zero_guest)
     cheats_patch 0 0 =
     Inr (True,
          (blank_state zero_guest)
            \<lparr>guest_mem :=
               zero_guest
                 \<lparr>cells := poke (poke (\<lambda>a. Some 0) 0x123456 [0xDE, 0xAD, 0xBE, 0xEF])
                             0x200000 [0x90],
                  accesses :=
                    [Read_access 0x123456 4, Read_access 0x123456 4,
                     Write_access 0x123456 [0xDE, 0xAD, 0xBE, 0xEF],
                     Read_access 0x200000 1, Read_access 0x200000 1,
                     Write_access 0x200000 [0x90]]\<rparr>,
             g_saved_values :=
               [\<lparr>sv_game_index = 0, sv_patch_index = 0, sv_address = 0x123456,
                 original_data = [0, 0, 0, 0]\<rparr>,
                \<lparr>sv_game_index = 0, sv_patch_index = 0, sv_address = 0x200000,
                 original_data = [0]\<rparr>]\<rparr>) \<and>
   xemu_patches_apply_patch_with_save_restore running_env (blank_state unmapped_guest)
     health_patch 0 0 =
     Inr (False,
          (blank_state unmapped_guest)
            \<lparr>guest_mem :=
               unmapped_guest
                 \<lparr>accesses := [Read_access 0x123456 4, Read_access 0x123456 4]\<rparr>\<rparr>) \<and>
   xemu_patches_apply_patch_with_save_restore running_env (blank_state waking_guest)
     health_patch 0 0 =
     Inr (True,
          (blank_state waking_guest)
            \<lparr>guest_mem :=
               \<lparr>cpu_present = True,
                cells = poke (\<lambda>a. Some 0) 0x123456 [0xDE, 0xAD, 0xBE, 0xEF],
                accesses =
                  [Read_access 0x123456 4, Read_access 0x123456 4,
                   Write_access 0x123456 [0xDE, 0xAD, 0xBE, 0xEF]],
                guest_runs = []\<rparr>\<rparr>)"
proof -
  have sv1: "add_saved_value [] 0 0 0x123456 [0, 0, 0, 0] =
      (Some 0, [\<lparr>sv_game_index = 0, sv_patch_index = 0, sv_address = 0x123456,
                 original_data = [0, 0, 0, 0]\<rparr>])"
    by (simp add: add_saved_value_def MAX_SAVED_VALUES_def find_saved_value_def)
  have sv2: "add_saved_value
      [\<lparr>sv_game_index = 0, sv_patch_index = 0, sv_address = 0x123456,
        original_data = [0, 0, 0, 0]\<rparr>] 0 0 0x200000 [0] =
      (Some 1, [\<lparr>sv_game_index = 0, sv_patch_index = 0, sv_address = 0x123456,
                 original_data = [0, 0, 0, 0]\<rparr>,
                \<lparr>sv_game_index = 0, sv_patch_index = 0, sv_address = 0x200000,
                 original_data = [0]\<rparr>])"
    by (simp add: add_saved_value_def MAX_SAVED_VALUES_def find_saved_value_def sv_matches_def)
  have q: "quiet (blank_state zero_guest)" "quiet (blank_state unmapped_guest)"
    by (simp_all add: quiet_def blank_state_def zero_guest_def unmapped_guest_def)
  have p2: "save_replaced_values cheats_patch \<and> system_memory running_env \<and>
      quiet (blank_state zero_guest) \<and>
      list_all (\<lambda>av. value_data av \<noteq> [] \<and> length (value_data av) \<le> 16)
        (address_values cheats_patch)"
    using q by (simp add: cheats_patch_def health_patch_def running_env_def health_pair_def
        ammo_pair_def)
  have p1: "save_replaced_values health_patch \<and> system_memory running_env \<and>
      quiet (blank_state unmapped_guest) \<and>
      list_all (\<lambda>av. value_data av \<noteq> [] \<and> length (value_data av) \<le> 16)
        (address_values health_patch)"
    using q by (simp add: health_patch_def running_env_def health_pair_def)
  have p3: "save_replaced_values health_patch \<and> system_memory running_env \<and>
      list_all (\<lambda>av. length (value_data av) \<le> 16) (address_values health_patch)"
    by (simp add: health_patch_def running_env_def health_pair_def)
  note inst = save_before_write [where e = running_env and gi = 0 and pi = 0]
  have zg: "cells zero_guest = (\<lambda>a. Some 0)" "accesses zero_guest = []"
    by (simp_all add: zero_guest_def)
  have qa: "quiet_apply 0 0 (address_values cheats_patch) (blank_state zero_guest) =
      ([True, True],
       (blank_state zero_guest)
            \<lparr>guest_mem :=
               zero_guest
                 \<lparr>cells := poke (poke (\<lambda>a. Some 0) 0x123456 [0xDE, 0xAD, 0xBE, 0xEF])
                             0x200000 [0x90],
                  accesses :=
                    [Read_access 0x123456 4, Read_access 0x123456 4,
                     Write_access 0x123456 [0xDE, 0xAD, 0xBE, 0xEF],
                     Read_access 0x200000 1, Read_access 0x200000 1,
                     Write_access 0x200000 [0x90]]\<rparr>,
             g_saved_values :=
               [\<lparr>sv_game_index = 0, sv_patch_index = 0, sv_address = 0x123456,
                 original_data = [0, 0, 0, 0]\<rparr>,
                \<lparr>sv_game_index = 0, sv_patch_index = 0, sv_address = 0x200000,
                 original_data = [0]\<rparr>]\<rparr>)"
    unfolding cheats_patch_def health_patch_def health_pair_def ammo_pair_def
    by (simp add: Let_def blank_state_def mapped_def peek_def zg sv1 sv2)
  from inst [of cheats_patch "blank_state zero_guest", THEN conjunct2, THEN conjunct2,
      THEN conjunct1, THEN mp, OF p2]
  have a: "xemu_patches_apply_patch_with_save_restore running_env (blank_state zero_guest)
     cheats_patch 0 0 =
     Inr (True,
          (blank_state zero_guest)
            \<lparr>guest_mem :=
               zero_guest
                 \<lparr>cells := poke (poke (\<lambda>a. Some 0) 0x123456 [0xDE, 0xAD, 0xBE, 0xEF])
                             0x200000 [0x90],
                  accesses :=
                    [Read_access 0x123456 4, Read_access 0x123456 4,
                     Write_access 0x123456 [0xDE, 0xAD, 0xBE, 0xEF],
                     Read_access 0x200000 1, Read_access 0x200000 1,
                     Write_access 0x200000 [0x90]]\<rparr>,
             g_saved_values :=
               [\<lparr>sv_game_index = 0, sv_patch_index = 0, sv_address = 0x123456,
                 original_data = [0, 0, 0, 0]\<rparr>,
                \<lparr>sv_game_index = 0, sv_patch_index = 0, sv_address = 0x200000,
                 original_data = [0]\<rparr>]\<rparr>)"
    by (simp add: qa)
  have qb: "quiet_apply 0 0 (address_values health_patch) (blank_state unmapped_guest) =
      ([False],
       (blank_state unmapped_guest)
            \<lparr>guest_mem :=
               unmapped_guest
                 \<lparr>accesses := [Read_access 0x123456 4, Read_access 0x123456 4]\<rparr>\<rparr>)"
    unfolding health_patch_def health_pair_def
    by (simp add: Let_def blank_state_def mapped_def unmapped_guest_def)
  from inst [of health_patch "blank_state unmapped_guest", THEN conjunct2, THEN conjunct2,
      THEN conjunct1, THEN mp, OF p1]
  have b: "xemu_patches_apply_patch_with_save_restore running_env (blank_state unmapped_guest)
     health_patch 0 0 =
     Inr (False,
          (blank_state unmapped_guest)
            \<lparr>guest_mem :=
               unmapped_guest
                 \<lparr>accesses := [Read_access 0x123456 4, Read_access 0x123456 4]\<rparr>\<rparr>)"
    by (simp add: qb)
  have va: "xemu_virtual_memory_is_valid_address 0x123456"
    by (simp add: valid_address_le)
  have rd: "read_direct_virtual_memory (blank_state waking_guest) 0x123456
      (Suc (Suc (Suc (Suc 0)))) =
      (None, (blank_state waking_guest)\<lparr>guest_mem :=
         \<lparr>cpu_present = True, cells = (\<lambda>a. None), accesses = [Read_access 0x123456 4],
          guest_runs = [\<lambda>m a. Some 0]\<rparr>\<rparr>)"
  proof -
    have "\<not> mapped (run_guest (guest_mem (blank_state waking_guest)))
        (ucast (0x123456 :: u64)) (Suc (Suc (Suc (Suc 0))))"
      by (simp add: blank_state_def waking_guest_def run_guest_def mapped_def)
    from vm_read_unmapped [OF va _ this, of "Some 256"] show ?thesis
      by (simp add: read_direct_virtual_memory_def Let_def)
        (simp add: blank_state_def waking_guest_def run_guest_def)
  qed
  let ?s1 = "(blank_state waking_guest)\<lparr>guest_mem :=
         \<lparr>cpu_present = True, cells = (\<lambda>a. None), accesses = [Read_access 0x123456 4],
          guest_runs = [\<lambda>m a. Some 0]\<rparr>\<rparr>"
  let ?g2 = "\<lparr>cpu_present = True, cells = (\<lambda>a. Some 0),
      accesses = [Read_access 0x123456 4, Read_access 0x123456 4], guest_runs = []\<rparr>"
  have va: "xemu_virtual_memory_is_valid_address 0x123456"
    by (simp add: valid_address_le)
  let ?g1 = "\<lparr>cpu_present = True, cells = (\<lambda>a. None), accesses = [Read_access 0x123456 4],
      guest_runs = [\<lambda>m a. Some 0]\<rparr>"
  have t1: "xemu_virtual_memory_read ?g1 0x123456 (Suc (Suc (Suc (Suc 0))))
      (Some 256) =
      \<lparr>rd_ret = 1, rd_buffer = Some [0, 0, 0, 0], rd_error_msg = Some [], rd_guest = ?g2\<rparr>"
  proof -
    have "mapped (run_guest ?g1) (ucast (0x123456 :: u64))
        (Suc (Suc (Suc (Suc 0))))"
      by (simp add: run_guest_def mapped_def)
    from vm_read_mapped [OF va _ this, of "Some 256"] show ?thesis
      by (simp add: run_guest_def peek_def clear_error_msg_def)
  qed
  have t2: "xemu_virtual_memory_write ?g2 0x123456 [0xDE, 0xAD, 0xBE, 0xEF] (Some 256) =
      \<lparr>wr_ret = 1, wr_error_msg = Some [],
       wr_guest = \<lparr>cpu_present = True,
                cells = poke (\<lambda>a. Some 0) 0x123456 [0xDE, 0xAD, 0xBE, 0xEF],
                accesses =
                  [Read_access 0x123456 4, Read_access 0x123456 4,
                   Write_access 0x123456 [0xDE, 0xAD, 0xBE, 0xEF]],
                guest_runs = []\<rparr>\<rparr>"
  proof -
    have "mapped (run_guest ?g2) (ucast (0x123456 :: u64))
        (length [0xDE, 0xAD, 0xBE, 0xEF :: u8])"
      by (simp add: mapped_def)
    from vm_write_mapped [OF va _ this, of "Some 256"] show ?thesis
      by (simp add: clear_error_msg_def)
  qed
  have wr: "apply_single_patch_bytes ?s1 0x123456 [0xDE, 0xAD, 0xBE, 0xEF] =
      (True,
       (blank_state waking_guest)
            \<lparr>guest_mem :=
               \<lparr>cpu_present = True,
                cells = poke (\<lambda>a. Some 0) 0x123456 [0xDE, 0xAD, 0xBE, 0xEF],
                accesses =
                  [Read_access 0x123456 4, Read_access 0x123456 4,
                   Write_access 0x123456 [0xDE, 0xAD, 0xBE, 0xEF]],
                guest_runs = []\<rparr>\<rparr>)"
    by (simp add: apply_single_patch_bytes_def Let_def t1 write_direct_virtual_memory_def t2
        log_reset_memory_values_def)
      (simp add: blank_state_def)
  have sw: "save_then_write 0 0 (address_values health_patch) (blank_state waking_guest) =
      ([True],
       (blank_state waking_guest)
            \<lparr>guest_mem :=
               \<lparr>cpu_present = True,
                cells = poke (\<lambda>a. Some 0) 0x123456 [0xDE, 0xAD, 0xBE, 0xEF],
                accesses =
                  [Read_access 0x123456 4, Read_access 0x123456 4,
                   Write_access 0x123456 [0xDE, 0xAD, 0xBE, 0xEF]],
                guest_runs = []\<rparr>\<rparr>)"
    unfolding health_patch_def health_pair_def
    by (simp add: rd wr)
  from inst [of health_patch "blank_state waking_guest", THEN conjunct2, THEN conjunct1,
      THEN mp, OF p3]
  have c: "xemu_patches_apply_patch_with_save_restore running_env (blank_state waking_guest)
     health_patch 0 0 =
     Inr (True,
          (blank_state waking_guest)
            \<lparr>guest_mem :=
               \<lparr>cpu_present = True,
                cells = poke (\<lambda>a. Some 0) 0x123456 [0xDE, 0xAD, 0xBE, 0xEF],
                accesses =
                  [Read_access 0x123456 4, Read_access 0x123456 4,
                   Write_access 0x123456 [0xDE, 0xAD, 0xBE, 0xEF]],
                guest_runs = []\<rparr>\<rparr>)"
    by (simp add: sw)
  from a b c show ?thesis
    by (intro conjI)
qed


section \<open>Properties of the mutators\<close>

text \<open>
  A loaded database with one game that has one disabled patch, on the guest \<open>g\<close>; the
  same with the value that the patch replaced in the store; and an environment in which no
  game is running.
\<close>

definition health_game :: XemuGamePatches where
  "health_game =
     \<lparr>game_title = Some ''Halo'', region = Some ''NTSC'', title_id = Some ''4D530004'',
      version = Some ''1.0.0.0'', alternate_title_id = None, time_date = None,
      disc_number = None, patches = [health_patch\<lparr>patch_enabled := False\<rparr>],
      game_enabled = True\<rparr>"

definition library_state :: "guest \<Rightarrow> pstate" where
  "library_state g =
     (blank_state g)
       \<lparr>g_patches_db := \<lparr>games = Some [health_game], file_path = Some ''/xemu/xemu.db'',
                          dirty = False\<rparr>,
        g_patches_loaded := True, g_patches_initialized := True\<rparr>"

definition health_saved :: SavedValueEntry where
  "health_saved =
     \<lparr>sv_game_index = 0, sv_patch_index = 0, sv_address = 0x123456,
      original_data = [0, 0, 0, 0]\<rparr>"

definition applied_state :: "guest \<Rightarrow> pstate" where
  "applied_state g = (library_state g)\<lparr>g_saved_values := [health_saved]\<rparr>"

definition idle_env :: env where
  "idle_env = running_env\<lparr>system_memory := False\<rparr>"

text \<open>
  Claim C5 fails on two of the mutators.  \<open>xemu_patches_remove_game\<close> returns true, sets
  the flag and leaves the saved value of the removed game in the store, where
  \<open>xemu_patches_remove_patch\<close> and \<open>xemu_patches_clear_saved_values_for_game\<close> on the same
  store remove it.  \<open>xemu_patches_set_patch_enabled\<close>, asked to enable a disabled patch
  while no game is running, returns true with the patch enabled, the flag still clear and
  no file written; the same call while a game is running saves the database.
\<close>

theorem mutators_miss_postconditions:
  "xemu_patches_remove_game (applied_state zero_guest) 0 =
     (True,
      (applied_state zero_guest)\<lparr>g_patches_db :=
         \<lparr>games = Some [], file_path = Some ''/xemu/xemu.db'', dirty = True\<rparr>\<rparr>) \<and>
   g_saved_values (snd (xemu_patches_remove_game (applied_state zero_guest) 0)) =
     [health_saved] \<and>
   g_saved_values (snd (xemu_patches_remove_patch (applied_state zero_guest) 0 0)) = [] \<and>
   xemu_patches_clear_saved_values_for_game 0 [health_saved] = [] \<and>
   (case xemu_patches_set_patch_enabled idle_env (library_state zero_guest) 0 0 True of
      Inl err \<Rightarrow> False
    | Inr (r, s') \<Rightarrow>
        r \<and> \<not> dirty (g_patches_db s') \<and>
        game_list (g_patches_db s') = [health_game\<lparr>patches := [health_patch]\<rparr>] \<and>
        files s' = files (library_state zero_guest) \<and>
        files s' ''/xemu/xemu.db'' = None) \<and>
   (case xemu_patches_set_patch_enabled running_env (library_state zero_guest) 0 0 True of
      Inl err \<Rightarrow> False
    | Inr (r, s') \<Rightarrow>
        r \<and> game_list (g_patches_db s') = [health_game\<lparr>patches := [health_patch]\<rparr>] \<and>
        files s' ''/xemu/xemu.db'' =
          Some (database_text [health_game\<lparr>patches := [health_patch]\<rparr>]))"
proof -
  have l1: "clear_saved_loop P 0 [health_saved] = (if P health_saved then [] else [health_saved])"
    for P
    by (simp add: clear_saved_loop.simps [of _ 0] clear_saved_loop.simps [of _ "Suc 0"]
        remove_saved_at_def)
  have a: "xemu_patches_remove_game (applied_state zero_guest) 0 =
     (True,
      (applied_state zero_guest)\<lparr>g_patches_db :=
         \<lparr>games = Some [], file_path = Some ''/xemu/xemu.db'', dirty = True\<rparr>\<rparr>)"
    by (simp add: xemu_patches_remove_game_def Let_def applied_state_def library_state_def
        blank_state_def game_count_def game_list_def)
  have b: "g_saved_values (snd (xemu_patches_remove_game (applied_state zero_guest) 0)) =
     [health_saved]"
    by (simp add: a) (simp add: applied_state_def)
  have c: "g_saved_values (snd (xemu_patches_remove_patch (applied_state zero_guest) 0 0)) = []"
    by (simp add: xemu_patches_remove_patch_def Let_def applied_state_def library_state_def
        blank_state_def game_count_def game_list_def patch_count_def health_game_def l1)
      (simp add: health_saved_def)
  have d: "xemu_patches_clear_saved_values_for_game 0 [health_saved] = []"
    by (simp add: xemu_patches_clear_saved_values_for_game_def l1) (simp add: health_saved_def)
  have e: "(case xemu_patches_set_patch_enabled idle_env (library_state zero_guest) 0 0 True of
      Inl err \<Rightarrow> False
    | Inr (r, s') \<Rightarrow>
        r \<and> \<not> dirty (g_patches_db s') \<and>
        game_list (g_patches_db s') = [health_game\<lparr>patches := [health_patch]\<rparr>] \<and>
        files s' = files (library_state zero_guest) \<and>
        files s' ''/xemu/xemu.db'' = None)"
    by (simp add: xemu_patches_set_patch_enabled_def Let_def library_state_def blank_state_def
        game_count_def game_list_def patch_count_def health_game_def health_patch_def
        idle_env_def running_env_def is_game_currently_running_def xemu_queue_notification_def)
  let ?db1 = "\<lparr>games = Some [health_game\<lparr>patches := [health_patch]\<rparr>],
      file_path = Some ''/xemu/xemu.db'', dirty = False\<rparr>"
  let ?s1 = "(library_state zero_guest)\<lparr>g_patches_db := ?db1\<rparr>"
  let ?s2 = "?s1\<lparr>guest_mem :=
               zero_guest
                 \<lparr>cells := poke (\<lambda>a. Some 0) 0x123456 [0xDE, 0xAD, 0xBE, 0xEF],
                  accesses :=
                    [Read_access 0x123456 4, Read_access 0x123456 4,
                     Write_access 0x123456 [0xDE, 0xAD, 0xBE, 0xEF]]\<rparr>,
             g_saved_values := [health_saved]\<rparr>"
  have q: "quiet ?s1"
    by (simp add: quiet_def library_state_def blank_state_def zero_guest_def)
  have len: "list_all (\<lambda>av. value_data av \<noteq> [] \<and> length (value_data av) \<le> 16) [health_pair]"
    by (simp add: health_pair_def)
  have sv1: "add_saved_value [] 0 0 0x123456 [0, 0, 0, 0] = (Some 0, [health_saved])"
    by (simp add: add_saved_value_def MAX_SAVED_VALUES_def find_saved_value_def
        health_saved_def)
  have qa: "quiet_apply 0 0 [health_pair] ?s1 = ([True], ?s2)"
    unfolding health_pair_def
    by (simp add: Let_def library_state_def blank_state_def mapped_def peek_def zero_guest_def
        sv1)
  have ap: "xemu_patches_apply_patch_with_save_restore running_env ?s1 health_patch 0 0 =
      Inr (True, ?s2)"
  proof -
    from len have "list_all (\<lambda>av. length (value_data av) \<le> 16) [health_pair]"
      by (simp add: health_pair_def)
    from apply_pairs_save_total [OF this, of 0 0 True ?s1] obtain r s' where
      eq: "apply_pairs_with_save True 0 0 [health_pair] True ?s1 = Inr (r, s')" by blast
    from apply_pairs_save_refines [OF eq]
    have "r = (True \<and> all_written (fst (([True], ?s2)))) \<and> s' = snd (([True], ?s2))"
      unfolding quiet_save_then_write [OF q len] qa .
    then have rs: "r = True" "s' = ?s2"
      by simp_all
    have "xemu_patches_apply_patch_with_save_restore running_env ?s1 health_patch 0 0 =
        apply_pairs_with_save True 0 0 [health_pair] True ?s1"
      by (simp add: xemu_patches_apply_patch_with_save_restore_def health_patch_def
          running_env_def del: apply_pairs_with_save.simps)
    then show ?thesis
      unfolding eq rs .
  qed
  have old: "health_patch\<lparr>patch_enabled := False, patch_enabled := True\<rparr> = health_patch"
    by (simp add: health_patch_def)
  have step: "xemu_patches_set_patch_enabled running_env (library_state zero_guest) 0 0 True =
      save_after_toggle running_env ''Infinite Health'' True
        (xemu_queue_notification
           (snprintf 512 (''Applied patch '' @ [CHR 0x22] @ ''Infinite Health'' @ [CHR 0x22]))
           ?s2)"
    using ap
    by (simp add: xemu_patches_set_patch_enabled_def Let_def library_state_def
        blank_state_def game_count_def game_list_def patch_count_def health_game_def
        health_patch_def running_env_def is_game_currently_running_def or_default_def)
  have f: "(case xemu_patches_set_patch_enabled running_env (library_state zero_guest) 0 0 True of
      Inl err \<Rightarrow> False
    | Inr (r, s') \<Rightarrow>
        r \<and> game_list (g_patches_db s') = [health_game\<lparr>patches := [health_patch]\<rparr>] \<and>
        files s' ''/xemu/xemu.db'' =
          Some (database_text [health_game\<lparr>patches := [health_patch]\<rparr>]))"
    unfolding step
    by (simp add: save_after_toggle_def xemu_patches_save_database_def Let_def
        xemu_queue_notification_def library_state_def blank_state_def running_env_def
        game_list_def)
      (simp add: health_game_def health_patch_def hex_value_overrun_def health_pair_def)
  from a b c d e f show ?thesis
    by (intro conjI)
qed

theorem mutators_miss_postconditions_witness:
  "g_saved_values (snd (xemu_patches_remove_game (applied_state zero_guest) 0)) \<noteq> [] \<and>
   (\<exists>s'. xemu_patches_set_patch_enabled idle_env (library_state zero_guest) 0 0 True =
           Inr (True, s') \<and>
         \<not> dirty (g_patches_db s') \<and> files s' ''/xemu/xemu.db'' = None)"
proof -
  note inst = mutators_miss_postconditions
  from inst have "g_saved_values (snd (xemu_patches_remove_game (applied_state zero_guest) 0)) =
      [health_saved]"
    by (rule conjunct2 [THEN conjunct1])
  moreover from inst
  have "case xemu_patches_set_patch_enabled idle_env (library_state zero_guest) 0 0 True of
      Inl err \<Rightarrow> False
    | Inr (r, s') \<Rightarrow>
        r \<and> \<not> dirty (g_patches_db s') \<and>
        game_list (g_patches_db s') = [health_game\<lparr>patches := [health_patch]\<rparr>] \<and>
        files s' = files (library_state zero_guest) \<and>
        files s' ''/xemu/xemu.db'' = None"
    by (rule conjunct2 [THEN conjunct2, THEN conjunct2, THEN conjunct2, THEN conjunct1])
  then have "\<exists>s'. xemu_patches_set_patch_enabled idle_env (library_state zero_guest) 0 0 True =
           Inr (True, s') \<and>
         \<not> dirty (g_patches_db s') \<and> files s' ''/xemu/xemu.db'' = None"
    by (cases "xemu_patches_set_patch_enabled idle_env (library_state zero_guest) 0 0 True")
      auto
  ultimately show ?thesis
    by simp
qed


section \<open>Duplicate games\<close>

text \<open>Saving can succeed: the database is loaded, no save is under way, the file opens and closes.\<close>

definition save_possible :: "env \<Rightarrow> 'a pstate_scheme \<Rightarrow> bool" where
  "save_possible e s =
     (g_patches_loaded s \<and> \<not> g_save_in_progress s \<and> fopen_w_ok e \<and> fclose_ok e)"

lemma save_database_result:
  assumes "xemu_patches_save_database e s = Inr (r, s')"
  shows "r = (save_possible e s \<and> games (g_patches_db s) \<noteq> None)"
    and "dirty (g_patches_db s') = (dirty (g_patches_db s) \<and> \<not> r)"
    and "games (g_patches_db s') = games (g_patches_db s)"
    and "g_saved_values s' = g_saved_values s"
    and "guest_mem s' = guest_mem s"
    and "g_patches_loaded s' = g_patches_loaded s"
    and "g_save_in_progress s' = g_save_in_progress s"
    and "notifications s' = notifications s"
    and "error_messages s' = error_messages s"
  using assms
  by (auto simp: xemu_patches_save_database_def save_possible_def Let_def
      split: if_splits option.splits)

lemma db_queue [simp]:
  "g_patches_db (xemu_queue_notification msg s) = g_patches_db s"
  "g_patches_db (xemu_queue_error_message msg s) = g_patches_db s"
  "g_saved_values (xemu_queue_notification msg s) = g_saved_values s"
  "g_saved_values (xemu_queue_error_message msg s) = g_saved_values s"
  "guest_mem (xemu_queue_notification msg s) = guest_mem s"
  "guest_mem (xemu_queue_error_message msg s) = guest_mem s"
  by (simp_all add: xemu_queue_notification_def xemu_queue_error_message_def)

lemma add_game_result:
  assumes "xemu_patches_add_game e s title reg tid ver alt_tid td disc = Inr (r, s')"
  shows "r"
    and "dirty (g_patches_db s') = (\<not> save_possible e s)"
    and "game_list (g_patches_db s') = game_list (g_patches_db s) @
           [\<lparr>game_title = title, region = reg, title_id = tid, version = ver,
             alternate_title_id = alt_tid, time_date = td, disc_number = disc,
             patches = [], game_enabled = True\<rparr>]"
    and "g_saved_values s' = g_saved_values s"
    and "guest_mem s' = guest_mem s"
    and "error_messages s' = error_messages s"
    and "notifications s' = notifications s"
    and "g_patches_loaded s' = g_patches_loaded s"
    and "g_save_in_progress s' = g_save_in_progress s"
proof -
  let ?g = "\<lparr>game_title = title, region = reg, title_id = tid, version = ver,
             alternate_title_id = alt_tid, time_date = td, disc_number = disc,
             patches = [], game_enabled = True\<rparr>"
  let ?s1 = "s\<lparr>g_patches_db := (g_patches_db s)\<lparr>games := Some (game_list (g_patches_db s) @ [?g]),
      dirty := True\<rparr>\<rparr>"
  from assms obtain r1 where sv: "xemu_patches_save_database e ?s1 = Inr (r1, s')" and r: r
    by (auto simp: xemu_patches_add_game_def Let_def split: sum.splits)
  note f = save_database_result [OF sv]
  show r by (rule r)
  from f(1) f(2) show "dirty (g_patches_db s') = (\<not> save_possible e s)"
    by (simp add: save_possible_def)
  from f(3) show "game_list (g_patches_db s') = game_list (g_patches_db s) @ [?g]"
    by (simp add: game_list_def)
  from f(4) show "g_saved_values s' = g_saved_values s" by simp
  from f(5) show "guest_mem s' = guest_mem s" by simp
  from f(9) show "error_messages s' = error_messages s" by simp
  from f(8) show "notifications s' = notifications s" by simp
  from f(6) show "g_patches_loaded s' = g_patches_loaded s" by simp
  from f(7) show "g_save_in_progress s' = g_save_in_progress s" by simp
qed

text \<open>The game has this title id and this version.\<close>

definition same_id_version :: "string \<Rightarrow> string \<Rightarrow> XemuGamePatches \<Rightarrow> bool" where
  "same_id_version tid ver game = (title_id game = Some tid \<and> version game = Some ver)"

text \<open>No patch of the games overruns \<open>hex_value\<close> when the database is saved.\<close>

definition no_hex_overrun :: "XemuGamePatches list \<Rightarrow> bool" where
  "no_hex_overrun gs = (\<not> list_ex (\<lambda>game. list_ex hex_value_overrun (patches game)) gs)"

lemma find_duplicate_from_none:
  "\<not> list_ex (same_id_version tid ver) gs \<Longrightarrow> find_duplicate_from gs i tid ver = - 1"
  by (induction gs arbitrary: i) (auto simp: same_id_version_def)

lemma find_duplicate_from_some:
  "list_ex (same_id_version tid ver) gs \<Longrightarrow> 0 \<le> i \<Longrightarrow>
   i \<le> find_duplicate_from gs i tid ver \<and>
   find_duplicate_from gs i tid ver < i + int (length gs) \<and>
   same_id_version tid ver (gs ! nat (find_duplicate_from gs i tid ver - i)) \<and>
   \<not> list_ex (same_id_version tid ver) (take (nat (find_duplicate_from gs i tid ver - i)) gs)"
proof (induction gs arbitrary: i)
  case Nil
  then show ?case by simp
next
  case (Cons game gs)
  show ?case
  proof (cases "same_id_version tid ver game")
    case True
    then show ?thesis by (simp add: same_id_version_def)
  next
    case False
    with Cons.prems have ex: "list_ex (same_id_version tid ver) gs" by simp
    from Cons.prems have i1: "0 \<le> i + 1" by simp
    let ?r = "find_duplicate_from gs (i + 1) tid ver"
    from Cons.IH [OF ex i1] have ih: "i + 1 \<le> ?r" "?r < i + 1 + int (length gs)"
      "same_id_version tid ver (gs ! nat (?r - (i + 1)))"
      "\<not> list_ex (same_id_version tid ver) (take (nat (?r - (i + 1))) gs)"
      by simp_all
    from False have r: "find_duplicate_from (game # gs) i tid ver = ?r"
      by (auto simp: same_id_version_def)
    from ih(1) have n: "nat (?r - i) = Suc (nat (?r - (i + 1)))" by simp
    from ih False show ?thesis
      unfolding r n by simp
  qed
qed

lemma find_duplicate_game_some:
  assumes "g_patches_loaded s"
    and "list_ex (same_id_version tid ver) (game_list (g_patches_db s))"
  shows "0 \<le> xemu_patches_find_duplicate_game s (Some tid) (Some ver)"
    and "xemu_patches_find_duplicate_game s (Some tid) (Some ver) < game_count (g_patches_db s)"
    and "same_id_version tid ver
      (game_list (g_patches_db s) ! nat (xemu_patches_find_duplicate_game s (Some tid) (Some ver)))"
    and "\<not> list_ex (same_id_version tid ver)
      (take (nat (xemu_patches_find_duplicate_game s (Some tid) (Some ver)))
         (game_list (g_patches_db s)))"
  using find_duplicate_from_some [OF assms(2), of 0] assms(1)
  by (simp_all add: xemu_patches_find_duplicate_game_def game_count_def)

lemma find_duplicate_game_none:
  assumes "\<not> list_ex (same_id_version tid ver) (game_list (g_patches_db s))"
  shows "xemu_patches_find_duplicate_game s (Some tid) (Some ver) = - 1"
  using find_duplicate_from_none [OF assms, of 0]
  by (simp add: xemu_patches_find_duplicate_game_def)

lemma save_database_total:
  assumes "no_hex_overrun (game_list (g_patches_db s))"
  shows "\<exists>r s'. xemu_patches_save_database e s = Inr (r, s')"
  using assms
  by (auto simp: xemu_patches_save_database_def no_hex_overrun_def game_list_def Let_def
      split: option.splits)

lemma no_hex_overrun_append:
  "no_hex_overrun (gs @ [game]) = (no_hex_overrun gs \<and> \<not> list_ex hex_value_overrun (patches game))"
  by (auto simp: no_hex_overrun_def)

lemma add_game_total:
  assumes "no_hex_overrun (game_list (g_patches_db s))"
  shows "\<exists>s'. xemu_patches_add_game e s title reg tid ver alt_tid td disc = Inr (True, s')"
proof -
  let ?g = "\<lparr>game_title = title, region = reg, title_id = tid, version = ver,
             alternate_title_id = alt_tid, time_date = td, disc_number = disc,
             patches = [], game_enabled = True\<rparr>"
  let ?s1 = "s\<lparr>g_patches_db := (g_patches_db s)\<lparr>games := Some (game_list (g_patches_db s) @ [?g]),
      dirty := True\<rparr>\<rparr>"
  from assms have "no_hex_overrun (game_list (g_patches_db ?s1))"
    by (simp add: game_list_def no_hex_overrun_append)
  from save_database_total [OF this, of e] show ?thesis
    by (auto simp: xemu_patches_add_game_def Let_def)
qed

lemma on_ui_database_changed_result:
  assumes "xemu_patches_on_ui_database_changed e s = Inr s'"
  shows "games (g_patches_db s') = games (g_patches_db s)"
    and "g_saved_values s' = g_saved_values s"
    and "guest_mem s' = guest_mem s"
    and "error_messages s' = error_messages s"
    and "notifications s' = notifications s"
proof -
  let ?s1 = "s\<lparr>g_patches_db := (g_patches_db s)\<lparr>dirty := True\<rparr>\<rparr>"
  have "games (g_patches_db s') = games (g_patches_db s) \<and>
      g_saved_values s' = g_saved_values s \<and> guest_mem s' = guest_mem s \<and>
      error_messages s' = error_messages s \<and> notifications s' = notifications s"
  proof (cases "g_save_in_progress s")
    case True
    with assms have "s' = ?s1"
      by (simp add: xemu_patches_on_ui_database_changed_def Let_def)
    then show ?thesis by simp
  next
    case False
    with assms obtain r1 s1 where sv: "xemu_patches_save_database e ?s1 = Inr (r1, s1)"
      by (auto simp: xemu_patches_on_ui_database_changed_def Let_def split: sum.splits)
    note f = save_database_result [OF sv]
    from assms False sv have "s' = (if r1 then s1
        else s1\<lparr>g_patches_db := (g_patches_db s1)\<lparr>dirty := True\<rparr>\<rparr>)"
      by (auto simp: xemu_patches_on_ui_database_changed_def Let_def)
    with f show ?thesis by simp
  qed
  then show "games (g_patches_db s') = games (g_patches_db s)"
    and "g_saved_values s' = g_saved_values s"
    and "guest_mem s' = guest_mem s"
    and "error_messages s' = error_messages s"
    and "notifications s' = notifications s"
    by simp_all
qed

lemma on_ui_database_changed_total:
  assumes "no_hex_overrun (game_list (g_patches_db s))"
  shows "\<exists>s'. xemu_patches_on_ui_database_changed e s = Inr s'"
proof -
  let ?s1 = "s\<lparr>g_patches_db := (g_patches_db s)\<lparr>dirty := True\<rparr>\<rparr>"
  from assms have "no_hex_overrun (game_list (g_patches_db ?s1))"
    by (simp add: game_list_def)
  from save_database_total [OF this, of e] obtain r1 s1 where
    "xemu_patches_save_database e ?s1 = Inr (r1, s1)" by blast
  then show ?thesis
    by (cases r1) (auto simp: xemu_patches_on_ui_database_changed_def Let_def)
qed

lemma find_duplicate_game_unloaded:
  "\<not> g_patches_loaded s \<Longrightarrow> xemu_patches_find_duplicate_game s tid ver = - 1"
  by (simp add: xemu_patches_find_duplicate_game_def split: option.splits)

lemma find_duplicate_game_null:
  "xemu_patches_find_duplicate_game s None ver = - 1"
  "xemu_patches_find_duplicate_game s tid None = - 1"
  by (simp_all add: xemu_patches_find_duplicate_game_def split: option.splits)

lemma add_game_clicked_duplicate:
  assumes "g_patches_loaded s" and "title \<noteq> []" and "tid \<noteq> []"
    and "list_ex (same_id_version tid ver) (game_list (g_patches_db s))"
  shows "add_game_clicked e s title reg tid ver alt_tid td disc =
     Inr (s\<lparr>error_messages := error_messages s @
            [snprintf 256
               (''Exact duplicate found: '' @ [CHR 0x27] @
                or_default
                  (game_title (game_list (g_patches_db s) !
                     nat (xemu_patches_find_duplicate_game s (Some tid) (Some ver))))
                  ''Unknown'' @
                [CHR 0x27] @ '' (Title ID: '' @ tid @ '', Version: '' @ ver @ '')'' @
                [CHR 0x0A] @ ''Same Title ID AND Version already exist in database'')]\<rparr>)"
proof -
  let ?dup = "game_list (g_patches_db s) !
      nat (xemu_patches_find_duplicate_game s (Some tid) (Some ver))"
  from find_duplicate_game_some(3) [OF assms(1) assms(4)]
  have "title_id ?dup = Some tid" and "version ?dup = Some ver"
    by (simp_all add: same_id_version_def)
  then have "duplicate_message ?dup =
      snprintf 256
        (''Exact duplicate found: '' @ [CHR 0x27] @ or_default (game_title ?dup) ''Unknown'' @
         [CHR 0x27] @ '' (Title ID: '' @ tid @ '', Version: '' @ ver @ '')'' @
         [CHR 0x0A] @ ''Same Title ID AND Version already exist in database'')"
    by (simp add: duplicate_message_def or_default_def)
  with find_duplicate_game_some(1) [OF assms(1) assms(4)] assms(2,3) show ?thesis
    by (simp add: add_game_clicked_def Let_def xemu_queue_error_message_def)
qed

lemma add_game_clicked_new:
  assumes "title \<noteq> []" and "tid \<noteq> []"
    and "xemu_patches_find_duplicate_game s (Some tid) (Some ver) = - 1"
    and "add_game_clicked e s title reg tid ver alt_tid td disc = Inr s'"
  shows "game_list (g_patches_db s') = game_list (g_patches_db s) @
           [\<lparr>game_title = Some title, region = Some reg, title_id = Some tid,
             version = Some ver, alternate_title_id = Some alt_tid, time_date = Some td,
             disc_number = Some disc, patches = [], game_enabled = True\<rparr>]"
    and "error_messages s' = error_messages s"
proof -
  from assms
  obtain r1 s1 where
    ag: "xemu_patches_add_game e s (Some title) (Some reg) (Some tid) (Some ver)
           (Some alt_tid) (Some td) (Some disc) = Inr (r1, s1)"
    by (auto simp: add_game_clicked_def Let_def split: sum.splits)
  note f = add_game_result [OF ag]
  from assms ag f(1)
  obtain s2 where ch: "xemu_patches_on_ui_database_changed e s1 = Inr s2"
    and s': "s' = xemu_queue_notification ''Added game to patches database'' s2"
    by (auto simp: add_game_clicked_def Let_def split: sum.splits)
  note h = on_ui_database_changed_result [OF ch]
  from f(3) h(1) show "game_list (g_patches_db s') = game_list (g_patches_db s) @
           [\<lparr>game_title = Some title, region = Some reg, title_id = Some tid,
             version = Some ver, alternate_title_id = Some alt_tid, time_date = Some td,
             disc_number = Some disc, patches = [], game_enabled = True\<rparr>]"
    by (simp add: s' game_list_def)
  from f(6) h(4) show "error_messages s' = error_messages s"
    by (simp add: s' xemu_queue_notification_def)
qed

lemma add_game_clicked_total:
  assumes "no_hex_overrun (game_list (g_patches_db s))"
  shows "\<exists>s'. add_game_clicked e s title reg tid ver alt_tid td disc = Inr s'"
proof (cases "title \<noteq> [] \<and> tid \<noteq> [] \<and>
    \<not> 0 \<le> xemu_patches_find_duplicate_game s (Some tid) (Some ver)")
  case False
  then show ?thesis
    by (auto simp: add_game_clicked_def Let_def)
next
  case True
  from add_game_total [OF assms, of e "Some title" "Some reg" "Some tid" "Some ver"
      "Some alt_tid" "Some td" "Some disc"]
  obtain s1 where ag: "xemu_patches_add_game e s (Some title) (Some reg) (Some tid) (Some ver)
           (Some alt_tid) (Some td) (Some disc) = Inr (True, s1)"
    by blast
  from add_game_result(3) [OF ag] assms have "no_hex_overrun (game_list (g_patches_db s1))"
    by (simp add: no_hex_overrun_append)
  from on_ui_database_changed_total [OF this, of e] obtain s2 where
    "xemu_patches_on_ui_database_changed e s1 = Inr s2" by blast
  with True ag show ?thesis
    by (simp add: add_game_clicked_def Let_def)
qed

text \<open>
  An entry as the click on \<open>Add Game\<close> makes it, and the state after one click in the
  state in which the program starts (the database not loaded).
\<close>

definition halo_entry :: "string \<Rightarrow> XemuGamePatches" where
  "halo_entry ver =
     \<lparr>game_title = Some ''Halo'', region = Some ''NTSC'', title_id = Some ''4D530004'',
      version = Some ver, alternate_title_id = Some [], time_date = Some [],
      disc_number = Some [], patches = [], game_enabled = True\<rparr>"

definition once_added :: pstate where
  "once_added =
     (blank_state zero_guest)
       \<lparr>g_patches_db :=
          \<lparr>games = Some [halo_entry ''1.0.0.0''], file_path = None, dirty = True\<rparr>,
        notifications := [''Added game to patches database'']\<rparr>"

text \<open>
  Claim C6, duplicate rejection, for the database with the games \<open>gs\<close>.
  \<open>xemu_patches_find_duplicate_game\<close> returns an index exactly when the database is loaded
  and some game has both the title id and the version (string equality), then the index of
  the first such game, and \<open>-1\<close> otherwise, also when an argument is \<open>NULL\<close>.  The click on
  \<open>Add Game\<close> (the only caller of \<open>xemu_patches_add_game\<close>) with a title and a title id
  that are not empty: when the database is loaded and a game has this title id and version,
  the click adds nothing to the state but one error message, which gives the title of that
  game, the title id and the version, so the database is unchanged; when the function
  returns \<open>-1\<close> (for instance for the same title id with another version) the game is
  appended.  The click returns unless saving overruns \<open>hex_value\<close>.
\<close>

theorem duplicate_rejection:
  fixes s :: "'a pstate_scheme"
  assumes "gs = game_list (g_patches_db s)"
  shows
    "(0 \<le> xemu_patches_find_duplicate_game s (Some tid) (Some ver)) =
       (g_patches_loaded s \<and> list_ex (same_id_version tid ver) gs) \<and>
     (\<not> (g_patches_loaded s \<and> list_ex (same_id_version tid ver) gs) \<longrightarrow>
        xemu_patches_find_duplicate_game s (Some tid) (Some ver) = - 1) \<and>
     xemu_patches_find_duplicate_game s None (Some ver) = - 1 \<and>
     xemu_patches_find_duplicate_game s (Some tid) None = - 1 \<and>
     (g_patches_loaded s \<and> list_ex (same_id_version tid ver) gs \<longrightarrow>
        xemu_patches_find_duplicate_game s (Some tid) (Some ver) < game_count (g_patches_db s) \<and>
        same_id_version tid ver
          (gs ! nat (xemu_patches_find_duplicate_game s (Some tid) (Some ver))) \<and>
        \<not> list_ex (same_id_version tid ver)
            (take (nat (xemu_patches_find_duplicate_game s (Some tid) (Some ver))) gs)) \<and>
     (g_patches_loaded s \<and> title \<noteq> [] \<and> tid \<noteq> [] \<and>
      list_ex (same_id_version tid ver) gs \<longrightarrow>
        add_game_clicked e s title reg tid ver alt_tid td disc =
          Inr (s\<lparr>error_messages := error_messages s @
                 [snprintf 256
                    (''Exact duplicate found: '' @ [CHR 0x27] @
                     or_default
                       (game_title
                          (gs ! nat (xemu_patches_find_duplicate_game s (Some tid) (Some ver))))
                       ''Unknown'' @
                     [CHR 0x27] @ '' (Title ID: '' @ tid @ '', Version: '' @ ver @ '')'' @
                     [CHR 0x0A] @
                     ''Same Title ID AND Version already exist in database'')]\<rparr>)) \<and>
     (title \<noteq> [] \<and> tid \<noteq> [] \<and>
      \<not> (g_patches_loaded s \<and> list_ex (same_id_version tid ver) gs) \<longrightarrow>
        (\<forall>s'. add_game_clicked e s title reg tid ver alt_tid td disc = Inr s' \<longrightarrow>
           game_list (g_patches_db s') =
             gs @ [\<lparr>game_title = Some title, region = Some reg, title_id = Some tid,
                    version = Some ver, alternate_title_id = Some alt_tid,
                    time_date = Some td, disc_number = Some disc, patches = [],
                    game_enabled = True\<rparr>] \<and>
           error_messages s' = error_messages s)) \<and>
     (no_hex_overrun gs \<longrightarrow>
        (\<exists>s'. add_game_clicked e s title reg tid ver alt_tid td disc = Inr s'))"
proof -
  let ?f = "xemu_patches_find_duplicate_game s (Some tid) (Some ver)"
  have c2: "\<not> (g_patches_loaded s \<and> list_ex (same_id_version tid ver) gs) \<longrightarrow> ?f = - 1"
    using find_duplicate_game_none [of tid ver s] find_duplicate_game_unloaded [of s]
    unfolding assms by blast
  have c1: "(0 \<le> ?f) = (g_patches_loaded s \<and> list_ex (same_id_version tid ver) gs)"
  proof (cases "g_patches_loaded s \<and> list_ex (same_id_version tid ver) gs")
    case True
    with find_duplicate_game_some(1) [of s tid ver] show ?thesis
      by (simp add: assms)
  next
    case False
    with c2 show ?thesis by simp
  qed
  have c3: "xemu_patches_find_duplicate_game s None (Some ver) = - 1"
    and c4: "xemu_patches_find_duplicate_game s (Some tid) None = - 1"
    by (rule find_duplicate_game_null)+
  have c5: "g_patches_loaded s \<and> list_ex (same_id_version tid ver) gs \<longrightarrow>
        ?f < game_count (g_patches_db s) \<and>
        same_id_version tid ver (gs ! nat ?f) \<and>
        \<not> list_ex (same_id_version tid ver) (take (nat ?f) gs)"
    using find_duplicate_game_some(2,3,4) [of s tid ver]
    unfolding assms by blast
  have c6: "g_patches_loaded s \<and> title \<noteq> [] \<and> tid \<noteq> [] \<and>
      list_ex (same_id_version tid ver) gs \<longrightarrow>
        add_game_clicked e s title reg tid ver alt_tid td disc =
          Inr (s\<lparr>error_messages := error_messages s @
                 [snprintf 256
                    (''Exact duplicate found: '' @ [CHR 0x27] @
                     or_default (game_title (gs ! nat ?f)) ''Unknown'' @
                     [CHR 0x27] @ '' (Title ID: '' @ tid @ '', Version: '' @ ver @ '')'' @
                     [CHR 0x0A] @
                     ''Same Title ID AND Version already exist in database'')]\<rparr>)"
    using add_game_clicked_duplicate [of s title tid ver e reg alt_tid td disc]
    unfolding assms by blast
  have c7: "title \<noteq> [] \<and> tid \<noteq> [] \<and>
      \<not> (g_patches_loaded s \<and> list_ex (same_id_version tid ver) gs) \<longrightarrow>
        (\<forall>s'. add_game_clicked e s title reg tid ver alt_tid td disc = Inr s' \<longrightarrow>
           game_list (g_patches_db s') =
             gs @ [\<lparr>game_title = Some title, region = Some reg, title_id = Some tid,
                    version = Some ver, alternate_title_id = Some alt_tid,
                    time_date = Some td, disc_number = Some disc, patches = [],
                    game_enabled = True\<rparr>] \<and>
           error_messages s' = error_messages s)"
    using add_game_clicked_new [of title tid s ver e reg alt_tid td disc] c2
    unfolding assms by blast
  have c8: "no_hex_overrun gs \<longrightarrow>
        (\<exists>s'. add_game_clicked e s title reg tid ver alt_tid td disc = Inr s')"
    using add_game_clicked_total [of s e title reg tid ver alt_tid td disc]
    unfolding assms by blast
  from c1 c2 c3 c4 c5 c6 c7 c8 show ?thesis
    by (intro conjI)
qed

theorem duplicate_rejection_witness:
  "g_patches_loaded (library_state zero_guest) \<and>
   game_list (g_patches_db (library_state zero_guest)) = [health_game] \<and>
   xemu_patches_find_duplicate_game (library_state zero_guest)
     (Some ''4D530004'') (Some ''1.0.0.0'') = 0 \<and>
   add_game_clicked running_env (library_state zero_guest)
     ''Halo'' ''NTSC'' ''4D530004'' ''1.0.0.0'' [] [] [] =
     Inr ((library_state zero_guest)
            \<lparr>error_messages :=
               [''Exact duplicate found: '' @ [CHR 0x27] @ ''Halo'' @ [CHR 0x27] @
                '' (Title ID: 4D530004, Version: 1.0.0.0)'' @ [CHR 0x0A] @
                ''Same Title ID AND Version already exist in database'']\<rparr>) \<and>
   xemu_patches_find_duplicate_game (library_state zero_guest)
     (Some ''4D530004'') (Some ''1.0.0.1'') = - 1 \<and>
   (\<exists>s'. add_game_clicked running_env (library_state zero_guest)
           ''Halo'' ''NTSC'' ''4D530004'' ''1.0.0.1'' [] [] [] = Inr s' \<and>
         game_list (g_patches_db s') = [health_game, halo_entry ''1.0.0.1''] \<and>
         error_messages s' = [])"
proof -
  let ?s = "library_state zero_guest"
  note inst = duplicate_rejection [of "[health_game]" ?s]
  have ld: "g_patches_loaded ?s"
    by (simp add: library_state_def)
  have gs: "[health_game] = game_list (g_patches_db ?s)"
    by (simp add: library_state_def game_list_def)
  have ex: "list_ex (same_id_version ''4D530004'' ''1.0.0.0'') [health_game]"
    by (simp add: same_id_version_def health_game_def)
  have nex: "\<not> list_ex (same_id_version ''4D530004'' ''1.0.0.1'') [health_game]"
    by (simp add: same_id_version_def health_game_def)
  have fd: "xemu_patches_find_duplicate_game ?s (Some ''4D530004'') (Some ''1.0.0.0'') = 0"
    by (simp add: xemu_patches_find_duplicate_game_def ld gs [symmetric] health_game_def)
  have msg: "snprintf 256
      (''Exact duplicate found: '' @ [CHR 0x27] @
       or_default (game_title health_game) ''Unknown'' @
       [CHR 0x27] @ '' (Title ID: '' @ ''4D530004'' @ '', Version: '' @ ''1.0.0.0'' @ '')'' @
       [CHR 0x0A] @ ''Same Title ID AND Version already exist in database'') =
      ''Exact duplicate found: '' @ [CHR 0x27] @ ''Halo'' @ [CHR 0x27] @
      '' (Title ID: 4D530004, Version: 1.0.0.0)'' @ [CHR 0x0A] @
      ''Same Title ID AND Version already exist in database''"
    by (simp add: snprintf_def or_default_def health_game_def)
  have em: "error_messages ?s = []"
    by (simp add: library_state_def blank_state_def)
  have nz: "g_patches_loaded ?s \<and> ''Halo'' \<noteq> [] \<and> ''4D530004'' \<noteq> [] \<and>
      list_ex (same_id_version ''4D530004'' ''1.0.0.0'') [health_game]"
    using ld ex by simp
  from inst [OF gs, of "''4D530004''" "''1.0.0.0''", THEN conjunct2, THEN conjunct2,
      THEN conjunct2, THEN conjunct2, THEN conjunct2, THEN conjunct1, THEN mp, OF nz]
  have dup: "add_game_clicked running_env ?s ''Halo'' ''NTSC'' ''4D530004'' ''1.0.0.0'' [] [] [] =
     Inr (?s\<lparr>error_messages :=
               [''Exact duplicate found: '' @ [CHR 0x27] @ ''Halo'' @ [CHR 0x27] @
                '' (Title ID: 4D530004, Version: 1.0.0.0)'' @ [CHR 0x0A] @
                ''Same Title ID AND Version already exist in database'']\<rparr>)"
    unfolding fd em by (simp only: nat_0 nth_Cons_0 msg append_Nil)
  have nm: "\<not> (g_patches_loaded ?s \<and>
      list_ex (same_id_version ''4D530004'' ''1.0.0.1'') [health_game])"
    using nex by simp
  from inst [OF gs, of "''4D530004''" "''1.0.0.1''", THEN conjunct2, THEN conjunct1, THEN mp,
      OF nm]
  have fn: "xemu_patches_find_duplicate_game ?s (Some ''4D530004'') (Some ''1.0.0.1'') = - 1" .
  have nh: "no_hex_overrun [health_game]"
    by (simp add: no_hex_overrun_def health_game_def health_patch_def hex_value_overrun_def
        health_pair_def)
  from inst [OF gs, of "''4D530004''" "''1.0.0.1''" "''Halo''" running_env "''NTSC''" "[]" "[]"
      "[]", THEN conjunct2, THEN conjunct2, THEN conjunct2, THEN conjunct2, THEN conjunct2,
      THEN conjunct2, THEN conjunct2, THEN mp, OF nh]
  obtain s' where
    cl: "add_game_clicked running_env ?s ''Halo'' ''NTSC'' ''4D530004'' ''1.0.0.1'' [] [] [] =
      Inr s'"
    by blast
  have nz2: "''Halo'' \<noteq> [] \<and> ''4D530004'' \<noteq> [] \<and>
      \<not> (g_patches_loaded ?s \<and>
         list_ex (same_id_version ''4D530004'' ''1.0.0.1'') [health_game])"
    using nex by simp
  from inst [OF gs, of "''4D530004''" "''1.0.0.1''" "''Halo''" running_env "''NTSC''" "[]" "[]"
      "[]", THEN conjunct2, THEN conjunct2, THEN conjunct2, THEN conjunct2, THEN conjunct2,
      THEN conjunct2, THEN conjunct1, THEN mp, OF nz2, THEN spec, THEN mp, OF cl]
  have "game_list (g_patches_db s') = [health_game, halo_entry ''1.0.0.1''] \<and>
      error_messages s' = []"
    by (simp add: halo_entry_def em)
  with cl have acc: "\<exists>s'. add_game_clicked running_env ?s
           ''Halo'' ''NTSC'' ''4D530004'' ''1.0.0.1'' [] [] [] = Inr s' \<and>
         game_list (g_patches_db s') = [health_game, halo_entry ''1.0.0.1''] \<and>
         error_messages s' = []"
    by blast
  from ld gs [symmetric] fd dup fn acc show ?thesis
    by (intro conjI)
qed

text \<open>
  Before the database is loaded the click on \<open>Add Game\<close> adds the game;
  \<open>xemu_patches_find_duplicate_game\<close> then returns \<open>-1\<close> for the title id and version
  of this game, and a second click appends a second entry with the same pair.
\<close>

theorem duplicate_rejection_counterexample:
  "add_game_clicked running_env (blank_state zero_guest) ''Halo'' ''NTSC'' ''4D530004''
       ''1.0.0.0'' [] [] [] = Inr once_added \<and>
   game_list (g_patches_db once_added) = [halo_entry ''1.0.0.0''] \<and>
   title_id (halo_entry ''1.0.0.0'') = Some ''4D530004'' \<and>
   version (halo_entry ''1.0.0.0'') = Some ''1.0.0.0'' \<and>
   xemu_patches_find_duplicate_game once_added (Some ''4D530004'') (Some ''1.0.0.0'') = - 1 \<and>
   add_game_clicked running_env once_added ''Halo'' ''NTSC'' ''4D530004'' ''1.0.0.0''
       [] [] [] =
     Inr (once_added
            \<lparr>g_patches_db :=
               \<lparr>games = Some [halo_entry ''1.0.0.0'', halo_entry ''1.0.0.0''],
                file_path = None, dirty = True\<rparr>,
             notifications :=
               [''Added game to patches database'', ''Added game to patches database'']\<rparr>)"
proof -
  have a: "add_game_clicked running_env (blank_state zero_guest) ''Halo'' ''NTSC''
      ''4D530004'' ''1.0.0.0'' [] [] [] = Inr once_added"
    by (simp add: add_game_clicked_def xemu_patches_find_duplicate_game_def
        xemu_patches_add_game_def xemu_patches_save_database_def
        xemu_patches_on_ui_database_changed_def Let_def once_added_def blank_state_def
        game_list_def halo_entry_def xemu_queue_notification_def)
  have b: "game_list (g_patches_db once_added) = [halo_entry ''1.0.0.0'']"
    by (simp add: once_added_def game_list_def)
  have c: "title_id (halo_entry ''1.0.0.0'') = Some ''4D530004''"
    "version (halo_entry ''1.0.0.0'') = Some ''1.0.0.0''"
    by (simp_all add: halo_entry_def)
  have d: "xemu_patches_find_duplicate_game once_added (Some ''4D530004'')
      (Some ''1.0.0.0'') = - 1"
    by (simp add: xemu_patches_find_duplicate_game_def once_added_def blank_state_def)
  have e: "add_game_clicked running_env once_added ''Halo'' ''NTSC'' ''4D530004''
      ''1.0.0.0'' [] [] [] =
     Inr (once_added
            \<lparr>g_patches_db :=
               \<lparr>games = Some [halo_entry ''1.0.0.0'', halo_entry ''1.0.0.0''],
                file_path = None, dirty = True\<rparr>,
             notifications :=
               [''Added game to patches database'', ''Added game to patches database'']\<rparr>)"
    unfolding add_game_clicked_def Let_def d
    by (simp add: xemu_patches_add_game_def xemu_patches_save_database_def
        xemu_patches_on_ui_database_changed_def Let_def once_added_def blank_state_def
        game_list_def halo_entry_def xemu_queue_notification_def)
  from a b c d e show ?thesis
    by (intro conjI)
qed


section \<open>Reading the certificate\<close>



























end
